theory Spec2Isabelle
  imports Complex_Main
begin

section \<open>Data model (models/car.py)\<close>

text \<open>The dataclass \<open>CarSearchParams\<close>; every field defaults to \<open>None\<close>.\<close>

record CarSearchParams =
  marca :: "string option"
  modelo :: "string option"
  ano_min :: "int option"
  ano_max :: "int option"
  km_max :: "int option"
  preco_max :: "int option"
  caixa :: "string option"
  combustivel :: "string option"

text \<open>
  The dataclass \<open>Car\<close>. A finite double is the real number it denotes, so comparing and
  sorting prices is exact; NaN and the infinities are outside the model. Arithmetic that
  rounds (sums, quotients, \<open>round\<close>, conversions) is never done on the reals here: it
  is a parameter of the function that performs it.
\<close>

record Car =
  titulo :: string
  preco :: string
  preco_numerico :: real
  moeda :: string
  ano :: "int option"
  quilometragem :: "string option"
  combustivel :: "string option"
  url :: "string option"

text \<open>The dictionary built by \<open>Car.to_dict\<close>: every field except the numeric price.\<close>

record car_dict =
  Titulo :: string
  Preco :: string
  Moeda :: string
  Ano :: "int option"
  Quilometragem :: "string option"
  Combustivel :: "string option"
  URL :: "string option"

definition to_dict :: "Car \<Rightarrow> car_dict" where
  "to_dict c = \<lparr>Titulo = titulo c, Preco = preco c, Moeda = moeda c, Ano = ano c,
     Quilometragem = quilometragem c, Combustivel = combustivel c, URL = url c\<rparr>"

section \<open>Price aggregator (utils/helpers.py)\<close>

datatype py_error = ZeroDivisionError | ValueError | KeyError

text \<open>
  The dictionary returned by \<open>calculate_price_interval\<close>. The key
  \<open>anuncios_usados_para_calculo\<close> is absent from the two early returns, hence the option.
\<close>

record price_stats =
  preco_intervalo_min :: "real option"
  preco_intervalo_max :: "real option"
  media_aproximada :: "real option"
  viaturas_consideradas :: nat
  anuncios_usados_para_calculo :: "car_dict list option"

definition empty_stats :: price_stats where
  "empty_stats = \<lparr>preco_intervalo_min = None, preco_intervalo_max = None,
     media_aproximada = None, viaturas_consideradas = 0,
     anuncios_usados_para_calculo = None\<rparr>"

text \<open>Python slicing \<open>xs[lo:hi]\<close>: a negative bound counts from the end, every bound is clamped.\<close>

definition slice_bound :: "nat \<Rightarrow> int \<Rightarrow> nat" where
  "slice_bound n i = (if i < 0 then nat (max 0 (int n + i)) else min n (nat i))"

definition py_slice :: "'a list \<Rightarrow> int \<Rightarrow> int \<Rightarrow> 'a list" where
  "py_slice xs lo hi =
     (let a = slice_bound (length xs) lo; b = slice_bound (length xs) hi
      in take (b - a) (drop a xs))"

text \<open>
  The arithmetic of the aggregator on doubles, taken as it is: \<open>sum(clean_prices)\<close>, the
  quotient of a double by a length, and \<open>round(avg, 2)\<close>.
\<close>

record float_ops =
  float_sum :: "real list \<Rightarrow> real"
  float_div :: "real \<Rightarrow> nat \<Rightarrow> real"
  float_round2 :: "real \<Rightarrow> real"

text \<open>\<open>min\<close>, \<open>max\<close> and \<open>in\<close> of Python, as the left-to-right loops they are.\<close>

fun py_min :: "real list \<Rightarrow> py_error + real" where
  "py_min [] = Inl ValueError"
| "py_min (x # xs) = Inr (foldl (\<lambda>m y. if y < m then y else m) x xs)"

fun py_max :: "real list \<Rightarrow> py_error + real" where
  "py_max [] = Inl ValueError"
| "py_max (x # xs) = Inr (foldl (\<lambda>m y. if y > m then y else m) x xs)"

fun py_in :: "real \<Rightarrow> real list \<Rightarrow> bool" where
  "py_in x [] = False"
| "py_in x (y # ys) = (if x = y then True else py_in x ys)"

text \<open>
  Lines 22 to 29. \<open>int(len(prices) * 0.05)\<close> truncates the product; the constant is taken
  as the exact 5/100 (the double 0.05 lies above 1/20 by less than 3e-18, which changes no
  truncated product for any list that fits in memory).
\<close>

definition cut_of :: "real list \<Rightarrow> nat" where
  "cut_of prices = nat \<lfloor>real (length prices) * (5 / 100)\<rfloor>"

definition sliced_prices :: "real list \<Rightarrow> real list" where
  "sliced_prices prices =
     (let cut = cut_of prices
      in if cut > 0 then py_slice prices (int cut) (- int cut) else prices)"

definition clean_prices_of :: "real list \<Rightarrow> real list" where
  "clean_prices_of prices =
     (let clean_prices = sliced_prices prices
      in if clean_prices = [] then prices else clean_prices)"

definition filtered_prices :: "Car list \<Rightarrow> real list" where
  "filtered_prices cars = map preco_numerico (filter (\<lambda>c. preco_numerico c > 100) cars)"

definition calculate_price_interval :: "float_ops \<Rightarrow> Car list \<Rightarrow> py_error + price_stats" where
  "calculate_price_interval F cars =
     (if cars = [] then Inr empty_stats
      else let prices = filtered_prices cars in
        if prices = [] then Inr empty_stats
        else let clean_prices = clean_prices_of (sort prices) in
          if length clean_prices = 0 then Inl ZeroDivisionError
          else let avg = float_div F (float_sum F clean_prices) (length clean_prices) in
            (case py_min clean_prices of
               Inl e \<Rightarrow> Inl e
             | Inr mn \<Rightarrow>
                (case py_max clean_prices of
                   Inl e \<Rightarrow> Inl e
                 | Inr mx \<Rightarrow>
                    Inr \<lparr>preco_intervalo_min = Some mn, preco_intervalo_max = Some mx,
                      media_aproximada = Some (float_round2 F avg),
                      viaturas_consideradas = length clean_prices,
                      anuncios_usados_para_calculo =
                        Some (map to_dict
                          (filter (\<lambda>c. py_in (preco_numerico c) clean_prices) cars))\<rparr>)))"

section \<open>Deduplication (scraper/otomoto\_scraper.py, \_deduplicate)\<close>

text \<open>
  The key of a listing: \<open>c.url if c.url else f"{c.titulo}_{c.preco}_{c.quilometragem}"\<close>.
  An empty URL is falsy and a missing mileage formats as \<open>None\<close>.
\<close>

definition composite_key :: "Car \<Rightarrow> string" where
  "composite_key c = titulo c @ ''_'' @ preco c @ ''_'' @
     (case quilometragem c of None \<Rightarrow> ''None'' | Some km \<Rightarrow> km)"

definition dedup_key :: "Car \<Rightarrow> string" where
  "dedup_key c = (case url c of
       None \<Rightarrow> composite_key c
     | Some u \<Rightarrow> if u = [] then composite_key c else u)"

text \<open>
  A Python dictionary keeps its keys in the order of their first insertion; assigning to
  a key that exists replaces the value in place.
\<close>

fun dict_set :: "('k \<times> 'v) list \<Rightarrow> 'k \<Rightarrow> 'v \<Rightarrow> ('k \<times> 'v) list" where
  "dict_set [] k v = [(k, v)]"
| "dict_set ((k', v') # d) k v =
     (if k' = k then (k, v) # d else (k', v') # dict_set d k v)"

definition dict_values :: "('k \<times> 'v) list \<Rightarrow> 'v list" where
  "dict_values d = map snd d"

definition dedup_loop :: "(string \<times> Car) list \<Rightarrow> Car list \<Rightarrow> (string \<times> Car) list" where
  "dedup_loop unique cars = foldl (\<lambda>unique c. dict_set unique (dedup_key c) c) unique cars"

definition deduplicate :: "Car list \<Rightarrow> Car list" where
  "deduplicate cars = dict_values (dedup_loop [] cars)"

text \<open>Every entry of the dictionary is stored under the key of its value.\<close>

definition keyed :: "(string \<times> Car) list \<Rightarrow> bool" where
  "keyed d = list_all (\<lambda>(k, c). dedup_key c = k) d"

section \<open>URL builder (utils/config.py, scraper/otomoto\_scraper.py, \_build\_url)\<close>

text \<open>Strings are sequences of bytes (UTF-8), which is what \<open>urlencode\<close> quotes.\<close>

definition OTOMOTO_BASE_URL :: string where
  "OTOMOTO_BASE_URL = ''https://www.otomoto.pl''"

definition OTOMOTO_SEARCH_URL :: string where
  "OTOMOTO_SEARCH_URL = OTOMOTO_BASE_URL @ ''/osobowe''"

definition FUEL_TYPE_MAP :: "(string \<times> string) list" where
  "FUEL_TYPE_MAP =
     [(''gasolina'', ''petrol''), (''gasoleo'', ''diesel''), (''diesel'', ''diesel''),
      (''gpl'', ''lpg''), (''hibrido'', ''hybrid''), (''eletrico'', ''electric''),
      (''hidrogenio'', ''hydrogen'')]"

definition TRANSMISSION_MAP :: "(string \<times> string) list" where
  "TRANSMISSION_MAP = [(''manual'', ''manual''), (''automatica'', ''automatic'')]"

text \<open>\<open>k in d\<close> and \<open>d[k]\<close> on a dictionary; the subscript raises \<open>KeyError\<close> on a missing key.\<close>

definition dict_contains :: "('k \<times> 'v) list \<Rightarrow> 'k \<Rightarrow> bool" where
  "dict_contains d k = (map_of d k \<noteq> None)"

definition dict_subscript :: "('k \<times> 'v) list \<Rightarrow> 'k \<Rightarrow> py_error + 'v" where
  "dict_subscript d k = (case map_of d k of None \<Rightarrow> Inl KeyError | Some v \<Rightarrow> Inr v)"

text \<open>The values stored in \<open>query_params\<close> are strings and integers.\<close>

datatype qvalue = QStr string | QInt int

text \<open>Truthiness of an optional field: \<open>None\<close>, the empty string and 0 are falsy.\<close>

fun truthy_str :: "string option \<Rightarrow> bool" where
  "truthy_str None = False"
| "truthy_str (Some s) = (s \<noteq> [])"

fun truthy_int :: "int option \<Rightarrow> bool" where
  "truthy_int None = False"
| "truthy_int (Some i) = (i \<noteq> 0)"

text \<open>Lines 45 to 59: the dictionary \<open>query_params\<close>, filled in this order.\<close>

definition query_params :: "CarSearchParams \<Rightarrow> int \<Rightarrow> py_error + (string \<times> qvalue) list" where
  "query_params params page =
     (let q0 = [(''search[advanced_search_expanded]'', QStr ''true'')];
          q1 = (if page > 1 then dict_set q0 ''page'' (QInt page) else q0);
          q2 = (if truthy_str (marca params)
                then dict_set q1 ''search[filter_enum_make]'' (QStr (the (marca params)))
                else q1);
          q3 = (if truthy_str (modelo params)
                then dict_set q2 ''search[filter_enum_model]'' (QStr (the (modelo params)))
                else q2);
          q4 = (if truthy_int (ano_min params)
                then dict_set q3 ''search[filter_float_year:from]'' (QInt (the (ano_min params)))
                else q3);
          q5 = (if truthy_int (ano_max params)
                then dict_set q4 ''search[filter_float_year:to]'' (QInt (the (ano_max params)))
                else q4);
          q6 = (if truthy_int (km_max params)
                then dict_set q5 ''search[filter_float_mileage:to]'' (QInt (the (km_max params)))
                else q5);
          q7 = (if truthy_int (preco_max params)
                then dict_set q6 ''search[filter_float_price:to]'' (QInt (the (preco_max params)))
                else q6)
      in case (if truthy_str (CarSearchParams.combustivel params)
                  \<and> dict_contains FUEL_TYPE_MAP (the (CarSearchParams.combustivel params))
               then (case dict_subscript FUEL_TYPE_MAP (the (CarSearchParams.combustivel params)) of
                       Inl e \<Rightarrow> Inl e
                     | Inr t \<Rightarrow> Inr (dict_set q7 ''search[filter_enum_fuel_type]'' (QStr t)))
               else Inr q7) of
           Inl e \<Rightarrow> Inl e
         | Inr q8 \<Rightarrow>
            (if truthy_str (caixa params) \<and> dict_contains TRANSMISSION_MAP (the (caixa params))
             then (case dict_subscript TRANSMISSION_MAP (the (caixa params)) of
                     Inl e \<Rightarrow> Inl e
                   | Inr t \<Rightarrow> Inr (dict_set q8 ''search[filter_enum_gearbox]'' (QStr t)))
             else Inr q8))"

text \<open>\<open>str\<close> of an integer: decimal digits, a minus sign for a negative number.\<close>

definition digit_char :: "nat \<Rightarrow> char" where
  "digit_char n = ''0123456789'' ! n"

function str_nat :: "nat \<Rightarrow> string" where
  "str_nat n = (if n < 10 then [digit_char n] else str_nat (n div 10) @ [digit_char (n mod 10)])"
  by pat_completeness auto
termination
  by (relation "measure id") auto

declare str_nat.simps [simp del]

definition str_int :: "int \<Rightarrow> string" where
  "str_int i = (if i < 0 then CHR ''-'' # str_nat (nat (- i)) else str_nat (nat i))"

fun str_qvalue :: "qvalue \<Rightarrow> string" where
  "str_qvalue (QStr s) = s"
| "str_qvalue (QInt i) = str_int i"

text \<open>
  \<open>urllib.parse.quote_plus\<close>: letters, digits and \<open>_.-~\<close> stay, a space becomes \<open>+\<close>, every
  other byte becomes \<open>%XX\<close> in upper-case hexadecimal.
\<close>

definition always_safe :: "char \<Rightarrow> bool" where
  "always_safe c =
     (c \<in> set ''ABCDEFGHIJKLMNOPQRSTUVWXYZabcdefghijklmnopqrstuvwxyz0123456789_.-~'')"

definition hex_digit :: "nat \<Rightarrow> char" where
  "hex_digit n = ''0123456789ABCDEF'' ! n"

definition quote_byte :: "char \<Rightarrow> string" where
  "quote_byte c =
     (if always_safe c then [c]
      else if c = CHR '' '' then ''+''
      else [CHR ''%'', hex_digit (of_char c div 16), hex_digit (of_char c mod 16)])"

definition quote_plus :: "string \<Rightarrow> string" where
  "quote_plus s = concat (map quote_byte s)"

text \<open>\<open>sep.join(parts)\<close> and \<open>urllib.parse.urlencode\<close> of a dictionary.\<close>

fun join :: "string \<Rightarrow> string list \<Rightarrow> string" where
  "join sep [] = []"
| "join sep [x] = x"
| "join sep (x # y # ys) = x @ sep @ join sep (y # ys)"

definition urlencode :: "(string \<times> qvalue) list \<Rightarrow> string" where
  "urlencode query =
     join ''&'' (map (\<lambda>(k, v). quote_plus k @ ''='' @ quote_plus (str_qvalue v)) query)"

definition build_url :: "CarSearchParams \<Rightarrow> int \<Rightarrow> py_error + string" where
  "build_url params page =
     (case query_params params page of
        Inl e \<Rightarrow> Inl e
      | Inr q \<Rightarrow> Inr (OTOMOTO_SEARCH_URL @ ''?'' @ urlencode q))"

text \<open>
  Reading a URL back, to state what it contains: the query is what follows the first
  \<open>?\<close>, its parameters are separated by \<open>&\<close>, and each is a key and a value around
  the first \<open>=\<close>.
\<close>

fun split_on :: "char \<Rightarrow> string \<Rightarrow> string list" where
  "split_on c [] = [[]]"
| "split_on c (x # xs) =
     (if x = c then [] # split_on c xs
      else (case split_on c xs of [] \<Rightarrow> [[x]] | y # ys \<Rightarrow> (x # y) # ys))"

definition split_pair :: "string \<Rightarrow> string \<times> string" where
  "split_pair s = (takeWhile (\<lambda>c. c \<noteq> CHR ''='') s, drop 1 (dropWhile (\<lambda>c. c \<noteq> CHR ''='') s))"

definition url_query :: "string \<Rightarrow> string" where
  "url_query u = drop 1 (dropWhile (\<lambda>c. c \<noteq> CHR ''?'') u)"

definition url_pairs :: "string \<Rightarrow> (string \<times> string) list" where
  "url_pairs u = map split_pair (split_on CHR ''&'' (url_query u))"

text \<open>A dictionary entry as it appears in the query string.\<close>

definition encode_pair :: "string \<times> qvalue \<Rightarrow> string \<times> string" where
  "encode_pair kv = (quote_plus (fst kv), quote_plus (str_qvalue (snd kv)))"

text \<open>
  Two abbreviations for the proofs: one conditional assignment of the builder, and the
  entry it leaves in the dictionary.
\<close>

definition put_if :: "bool \<Rightarrow> 'k \<Rightarrow> 'v \<Rightarrow> ('k \<times> 'v) list \<Rightarrow> ('k \<times> 'v) list" where
  "put_if c k v q = (if c then dict_set q k v else q)"

definition entry_if :: "bool \<Rightarrow> 'a \<Rightarrow> 'a list" where
  "entry_if c e = (if c then [e] else [])"

section \<open>Parameter validator (utils/brand\_model\_validator.py)\<close>

text \<open>
  The catalog is the \<open>brands\<close> object of the database file, a dictionary in file order
  from a key to an entry. \<open>brand_value\<close>, \<open>brand_text\<close> and \<open>models\<close> are read with
  \<open>.get\<close>, so each may be missing (\<open>None\<close>); a model always has its two strings.
\<close>

record ModelEntry =
  model_value :: string
  model_text :: string

record BrandData =
  brand_value :: "string option"
  brand_text :: "string option"
  models :: "ModelEntry list option"

text \<open>
  The string functions that follow Unicode, taken as they are: \<open>str.lower\<close>, \<open>str.upper\<close>
  and \<open>str.strip\<close>, and \<open>len(s)\<close> and \<open>s[n:]\<close>, which count code points where a \<open>string\<close>
  here is a sequence of bytes. (Concatenation, \<open>replace\<close>, \<open>startswith\<close> and \<open>in\<close> give the
  same on the bytes of UTF-8 as on the code points.)
\<close>

record str_lib =
  str_lower :: "string \<Rightarrow> string"
  str_upper :: "string \<Rightarrow> string"
  str_strip :: "string \<Rightarrow> string"
  str_len :: "string \<Rightarrow> nat"
  str_from :: "nat \<Rightarrow> string \<Rightarrow> string"

text \<open>The dictionary \<open>result\<close>; \<open>suggestions\<close> is itself a dictionary of lists.\<close>

record validation =
  valid :: bool
  res_brand_value :: "string option"
  res_model_value :: "string option"
  errors :: "string list"
  suggestions :: "(string \<times> string list) list"

text \<open>The test of line 40 to 42, and the loop around it, which stops at the first match.\<close>

definition brand_matches :: "str_lib \<Rightarrow> string \<Rightarrow> string \<times> BrandData \<Rightarrow> bool" where
  "brand_matches S marca_lower item =
     (str_lower S (fst item) = marca_lower
      \<or> brand_value (snd item) = Some marca_lower
      \<or> str_lower S (case brand_text (snd item) of None \<Rightarrow> [] | Some t \<Rightarrow> t) = marca_lower)"

fun find_brand ::
  "str_lib \<Rightarrow> string \<Rightarrow> (string \<times> BrandData) list \<Rightarrow> (string \<times> BrandData) option" where
  "find_brand S marca_lower [] = None"
| "find_brand S marca_lower (item # items) =
     (if brand_matches S marca_lower item then Some item else find_brand S marca_lower items)"

definition model_matches :: "str_lib \<Rightarrow> string \<Rightarrow> ModelEntry \<Rightarrow> bool" where
  "model_matches S modelo_lower model =
     (str_lower S (model_text model) = modelo_lower
      \<or> str_lower S (model_value model) = modelo_lower)"

fun find_model :: "str_lib \<Rightarrow> string \<Rightarrow> ModelEntry list \<Rightarrow> ModelEntry option" where
  "find_model S modelo_lower [] = None"
| "find_model S modelo_lower (model # rest) =
     (if model_matches S modelo_lower model then Some model
      else find_model S modelo_lower rest)"

definition brand_not_found_message :: "string \<Rightarrow> string" where
  "brand_not_found_message marca_input =
     ''Marca '' @ [CHR 0x27] @ marca_input @ [CHR 0x27] @ '' n'' @ [CHR 0xC3, CHR 0xA3]
       @ ''o encontrada.''"

definition model_not_found_message :: "string \<Rightarrow> string" where
  "model_not_found_message modelo_input =
     ''Modelo '' @ [CHR 0x27] @ modelo_input @ [CHR 0x27] @ '' n'' @ [CHR 0xC3, CHR 0xA3]
       @ ''o encontrado para a marca.''"

definition validate_search_params ::
  "str_lib \<Rightarrow> (string \<times> BrandData) list \<Rightarrow> string option \<Rightarrow> string option
     \<Rightarrow> py_error + validation" where
  "validate_search_params S brands marca_input modelo_input =
     (let result = \<lparr>valid = True, res_brand_value = None, res_model_value = None,
                     errors = [], suggestions = []\<rparr>
      in if \<not> truthy_str marca_input then Inr result
      else let marca_lower = str_strip S (str_lower S (the marca_input)) in
        (case find_brand S marca_lower brands of
           None \<Rightarrow>
             Inr (result\<lparr>valid := False,
                   errors := errors result @ [brand_not_found_message (the marca_input)],
                   suggestions := dict_set (suggestions result) ''marcas''
                     (take 5 (map fst brands))\<rparr>)
         | Some (key, data) \<Rightarrow>
            (case brand_value data of
               None \<Rightarrow> Inl KeyError
             | Some bv \<Rightarrow>
                (let result = result\<lparr>res_brand_value := Some bv\<rparr>
                 in if \<not> truthy_str modelo_input then Inr result
                 else let modelo_lower = str_strip S (str_lower S (the modelo_input));
                          models_list = (case models data of None \<Rightarrow> [] | Some ms \<Rightarrow> ms)
                   in (case find_model S modelo_lower models_list of
                         Some model \<Rightarrow> Inr (result\<lparr>res_model_value := Some (model_value model)\<rparr>)
                       | None \<Rightarrow>
                           Inr (result\<lparr>valid := False,
                                 errors := errors result
                                   @ [model_not_found_message (the modelo_input)],
                                 suggestions := dict_set (suggestions result)
                                   ''modelos_disponiveis'' (map model_text models_list)\<rparr>))))))"

section \<open>Extractors (scraper/otomoto\_scraper.py)\<close>





























section \<open>Example inputs\<close>

text \<open>
  An instance of the arithmetic for the examples: exact sum and quotient, and rounding to
  the nearest multiple of 0.01 with a tie going to the even neighbour. The example prices
  are integers whose sums and means are integers, on which the doubles give the same.
\<close>

definition round2_half_even :: "real \<Rightarrow> real" where
  "round2_half_even x =
     (let y = x * 100; f = \<lfloor>y\<rfloor>; d = y - of_int f
      in (if d < 1 / 2 then of_int f
          else if 1 / 2 < d then of_int (f + 1)
          else if even f then of_int f else of_int (f + 1)) / 100)"

definition exact_ops :: float_ops where
  "exact_ops = \<lparr>float_sum = sum_list, float_div = (\<lambda>s n. s / real n),
     float_round2 = round2_half_even\<rparr>"

definition car_priced :: "string \<Rightarrow> real \<Rightarrow> Car" where
  "car_priced u p = \<lparr>titulo = ''Car'', preco = ''0 PLN'', preco_numerico = p, moeda = ''PLN'',
     ano = None, quilometragem = None, combustivel = None, url = Some u\<rparr>"

definition demo_cars :: "Car list" where
  "demo_cars = map (car_priced ''u'')
     [1000000, 50, 2100, 2000, 1900, 1800, 1700, 1600, 1500, 1400, 1300, 1200, 1100, 1000,
      900, 800, 700, 600, 500, 400, 110]"

definition tied_cars :: "Car list" where
  "tied_cars = map (car_priced ''u'')
     [400, 400, 2100, 2000, 1900, 1800, 1700, 1600, 1500, 1400, 1300, 1200, 1100, 1000,
      900, 800, 700, 600, 500, 1000000]"

definition twenty_prices :: "real list" where
  "twenty_prices = [110, 400, 500, 600, 700, 800, 900, 1000, 1100, 1200, 1300, 1400, 1500, 1600,
     1700, 1800, 1900, 2000, 2100, 1000000]"

definition demo_params :: CarSearchParams where
  "demo_params = \<lparr>marca = Some ''bmw'', modelo = Some ''x5'', ano_min = None,
     ano_max = Some 2020, km_max = None, preco_max = Some 50000,
     caixa = Some ''automatica'', CarSearchParams.combustivel = Some ''querosene''\<rparr>"

definition zero_km_params :: CarSearchParams where
  "zero_km_params = \<lparr>marca = None, modelo = None, ano_min = None, ano_max = None,
     km_max = Some 0, preco_max = None, caixa = None, CarSearchParams.combustivel = None\<rparr>"

text \<open>
  An instance of the string functions for the examples, which are ASCII strings: the
  letters \<open>A\<close> to \<open>Z\<close> and the ASCII white space, every other byte left as it is, and
  one code point for each byte.
\<close>

definition lower_char :: "char \<Rightarrow> char" where
  "lower_char c =
     (case map_of (zip ''ABCDEFGHIJKLMNOPQRSTUVWXYZ'' ''abcdefghijklmnopqrstuvwxyz'') c of
        None \<Rightarrow> c
      | Some l \<Rightarrow> l)"

definition ascii_lower :: "string \<Rightarrow> string" where
  "ascii_lower s = map lower_char s"

definition is_space :: "char \<Rightarrow> bool" where
  "is_space c =
     (c \<in> set [CHR 0x09, CHR 0x0A, CHR 0x0B, CHR 0x0C, CHR 0x0D,
                CHR 0x1C, CHR 0x1D, CHR 0x1E, CHR 0x1F, CHR 0x20])"

definition ascii_strip :: "string \<Rightarrow> string" where
  "ascii_strip s = rev (dropWhile is_space (rev (dropWhile is_space s)))"

definition upper_char :: "char \<Rightarrow> char" where
  "upper_char c =
     (case map_of (zip ''abcdefghijklmnopqrstuvwxyz'' ''ABCDEFGHIJKLMNOPQRSTUVWXYZ'') c of
        None \<Rightarrow> c
      | Some u \<Rightarrow> u)"

definition ascii_upper :: "string \<Rightarrow> string" where
  "ascii_upper s = map upper_char s"

definition ascii_strings :: str_lib where
  "ascii_strings = \<lparr>str_lower = ascii_lower, str_upper = ascii_upper,
     str_strip = ascii_strip, str_len = length, str_from = drop\<rparr>"

definition cupra_catalog :: "(string \<times> BrandData) list" where
  "cupra_catalog =
     [(''mb'', \<lparr>brand_value = Some ''Mercedes-Benz'', brand_text = Some ''Mercedes'',
         models = None\<rparr>),
      (''seat'', \<lparr>brand_value = Some ''seat'', brand_text = Some ''Cupra'', models = Some []\<rparr>),
      (''cupra'', \<lparr>brand_value = Some ''cupra'', brand_text = Some ''Cupra'',
         models = Some [\<lparr>model_value = ''formentor'', model_text = ''Formentor''\<rparr>]\<rparr>)]"

definition six_catalog :: "(string \<times> BrandData) list" where
  "six_catalog = map (\<lambda>k. (k, \<lparr>brand_value = Some k, brand_text = Some k, models = None\<rparr>))
     [''audi'', ''bmw'', ''fiat'', ''ford'', ''kia'', ''opel'']"

text \<open>
  An instance of the library functions for the examples: numbers are parsed out of
  strings of ASCII digits only, an integer is converted up to \<open>2^53\<close> in magnitude, where
  the double is the integer itself, and the three searches are given on one article
  text, \<open>Audi A4 | 150 000 km | 99 000 PLN\<close>, by the groups the patterns match there.
\<close>

definition digit_value :: "char \<Rightarrow> nat option" where
  "digit_value c = map_of (zip ''0123456789'' [0, 1, 2, 3, 4, 5, 6, 7, 8, 9]) c"

fun digits_value :: "nat \<Rightarrow> string \<Rightarrow> nat option" where
  "digits_value acc [] = Some acc"
| "digits_value acc (c # s) =
     (case digit_value c of None \<Rightarrow> None | Some v \<Rightarrow> digits_value (10 * acc + v) s)"






section \<open>Properties of the aggregator\<close>

lemma cut_of_div: "cut_of prices = length prices div 20"
proof -
  have "real (length prices) * (5 / 100) = real (length prices) / real 20"
    by simp
  then have "\<lfloor>real (length prices) * (5 / 100)\<rfloor> = \<lfloor>real (length prices) / real 20\<rfloor>"
    by (rule arg_cong)
  also have "\<dots> = int (length prices div 20)"
    by (rule floor_divide_of_nat_eq)
  finally show ?thesis
    by (simp add: cut_of_def)
qed

lemma py_slice_trim:
  assumes "0 < k" and "2 * k \<le> length xs"
  shows "py_slice xs (int k) (- int k) = take (length xs - 2 * k) (drop k xs)"
proof -
  have a: "slice_bound (length xs) (int k) = k"
    using assms by (simp add: slice_bound_def)
  have b: "slice_bound (length xs) (- int k) = length xs - k"
    using assms by (simp add: slice_bound_def)
  have "length xs - k - k = length xs - 2 * k"
    by simp
  then show ?thesis
    by (simp add: py_slice_def a b)
qed

lemma twice_div20_le: "2 * ((n::nat) div 20) \<le> n"
  by linarith

lemma twice_div20_less: "0 < (n::nat) \<Longrightarrow> 2 * (n div 20) < n"
  by linarith

lemma trimmed_length_le: "(n::nat) - 2 * (n div 20) \<le> n - n div 20"
  by linarith

lemma sliced_prices_eq:
  "sliced_prices prices =
     take (length prices - 2 * (length prices div 20)) (drop (length prices div 20) prices)"
proof (cases "0 < length prices div 20")
  case True
  then show ?thesis
    unfolding sliced_prices_def Let_def cut_of_div
    by (simp add: py_slice_trim twice_div20_le)
next
  case False
  then show ?thesis
    unfolding sliced_prices_def Let_def cut_of_div
    by simp
qed

lemma length_sliced_prices:
  "length (sliced_prices prices) = length prices - 2 * (length prices div 20)"
  by (simp add: sliced_prices_eq trimmed_length_le)

lemma sliced_prices_nonempty: "prices \<noteq> [] \<Longrightarrow> sliced_prices prices \<noteq> []"
proof -
  assume "prices \<noteq> []"
  then have "0 < length prices"
    by simp
  then have "2 * (length prices div 20) < length prices"
    by (rule twice_div20_less)
  then have "0 < length (sliced_prices prices)"
    by (simp only: length_sliced_prices zero_less_diff)
  then show ?thesis
    by auto
qed

lemma clean_prices_of_eq: "clean_prices_of prices = sliced_prices prices"
proof (cases "prices = []")
  case True
  then show ?thesis
    by (simp add: clean_prices_of_def sliced_prices_eq)
next
  case False
  then show ?thesis
    by (simp add: clean_prices_of_def sliced_prices_nonempty)
qed

lemma split_three:
  assumes "2 * k \<le> length xs"
  shows "xs = take k xs @ take (length xs - 2 * k) (drop k xs) @ drop (length xs - k) xs"
proof -
  have "length xs - 2 * k + k = length xs - k"
    using assms by simp
  then have "drop (length xs - 2 * k) (drop k xs) = drop (length xs - k) xs"
    by (simp only: drop_drop)
  then have "drop k xs = take (length xs - 2 * k) (drop k xs) @ drop (length xs - k) xs"
    by (metis append_take_drop_id)
  then show ?thesis
    by (metis append_take_drop_id)
qed

lemma foldl_min: "foldl (\<lambda>m y. if y < m then y else m) a xs = Min (insert a (set xs))"
  for a :: real
proof (induction xs arbitrary: a)
  case Nil
  then show ?case by simp
next
  case (Cons x xs)
  have step: "(if x < a then x else a) = min a x"
    by (simp add: min_def)
  have "Min (insert (min a x) (set xs)) = Min (insert a (insert x (set xs)))"
  proof (cases "xs = []")
    case True
    then show ?thesis by simp
  next
    case False
    then have "set xs \<noteq> {}" by simp
    then show ?thesis
      by (simp add: min.assoc)
  qed
  with Cons step show ?case
    by simp
qed

lemma foldl_max: "foldl (\<lambda>m y. if y > m then y else m) a xs = Max (insert a (set xs))"
  for a :: real
proof (induction xs arbitrary: a)
  case Nil
  then show ?case by simp
next
  case (Cons x xs)
  have step: "(if x > a then x else a) = max a x"
    by (simp add: max_def)
  have "Max (insert (max a x) (set xs)) = Max (insert a (insert x (set xs)))"
  proof (cases "xs = []")
    case True
    then show ?thesis by simp
  next
    case False
    then have "set xs \<noteq> {}" by simp
    then show ?thesis
      by (simp add: max.assoc)
  qed
  with Cons step show ?case
    by simp
qed

lemma py_min_eq: "xs \<noteq> [] \<Longrightarrow> py_min xs = Inr (Min (set xs))"
  by (cases xs) (simp_all add: foldl_min)

lemma py_max_eq: "xs \<noteq> [] \<Longrightarrow> py_max xs = Inr (Max (set xs))"
  by (cases xs) (simp_all add: foldl_max)

lemma py_in_set: "py_in x ys = (x \<in> set ys)"
  by (induction ys) auto


lemma filtered_prices_gt: "x \<in> set (filtered_prices cars) \<Longrightarrow> 100 < x"
  by (auto simp: filtered_prices_def)

lemma filtered_prices_filter:
  "filtered_prices (filter (\<lambda>c. preco_numerico c > 100) cars) = filtered_prices cars"
  by (simp add: filtered_prices_def)

lemma filtered_prices_empty_iff:
  "filtered_prices cars = [] \<longleftrightarrow> (\<forall>c \<in> set cars. preco_numerico c \<le> 100)"
  by (auto simp: filtered_prices_def filter_empty_conv not_less)

lemma set_sliced_subset: "set (sliced_prices prices) \<subseteq> set prices"
proof -
  have "set (sliced_prices prices) \<subseteq> set (drop (length prices div 20) prices)"
    unfolding sliced_prices_eq by (rule set_take_subset)
  also have "\<dots> \<subseteq> set prices"
    by (rule set_drop_subset)
  finally show ?thesis .
qed

lemma calculate_nonempty:
  assumes "filtered_prices cars \<noteq> []"
  shows "calculate_price_interval F cars =
     Inr \<lparr>preco_intervalo_min = Some (Min (set (sliced_prices (sort (filtered_prices cars))))),
          preco_intervalo_max = Some (Max (set (sliced_prices (sort (filtered_prices cars))))),
          media_aproximada = Some (float_round2 F
            (float_div F (float_sum F (sliced_prices (sort (filtered_prices cars))))
               (length (sliced_prices (sort (filtered_prices cars)))))),
          viaturas_consideradas = length (sliced_prices (sort (filtered_prices cars))),
          anuncios_usados_para_calculo = Some (map to_dict
            (filter (\<lambda>c. preco_numerico c \<in> set (sliced_prices (sort (filtered_prices cars))))
               cars))\<rparr>"
proof -
  have cars: "cars \<noteq> []"
    using assms by (auto simp: filtered_prices_def)
  have "sort (filtered_prices cars) \<noteq> []"
    using assms by (metis length_sort length_0_conv)
  then have ne: "sliced_prices (sort (filtered_prices cars)) \<noteq> []"
    by (rule sliced_prices_nonempty)
  show ?thesis
    unfolding calculate_price_interval_def Let_def clean_prices_of_eq
    using cars assms ne
    by (simp add: py_min_eq py_max_eq py_in_set)
qed






lemma calculate_filtered_empty:
  "filtered_prices cars = [] \<Longrightarrow> calculate_price_interval F cars = Inr empty_stats"
  by (simp add: calculate_price_interval_def)

lemma calculate_never_fails: "calculate_price_interval F cars \<noteq> Inl e"
proof (cases "filtered_prices cars = []")
  case True
  then show ?thesis by (simp add: calculate_filtered_empty)
next
  case False
  then show ?thesis by (simp add: calculate_nonempty)
qed

lemma used_listings_filter:
  "filter (\<lambda>c. preco_numerico c \<in> set (sliced_prices (sort (filtered_prices cars))))
      (filter (\<lambda>c. preco_numerico c > 100) cars)
   = filter (\<lambda>c. preco_numerico c \<in> set (sliced_prices (sort (filtered_prices cars)))) cars"
proof -
  have "preco_numerico c > 100"
    if "preco_numerico c \<in> set (sliced_prices (sort (filtered_prices cars)))" for c
  proof -
    from that set_sliced_subset have "preco_numerico c \<in> set (sort (filtered_prices cars))"
      by blast
    then have "preco_numerico c \<in> set (filtered_prices cars)"
      by simp
    then show ?thesis
      by (rule filtered_prices_gt)
  qed
  then show ?thesis
    by (auto intro: filter_cong)
qed

text \<open>
  Claim C7. On an empty input, or one where every listing has numeric price at most 100,
  the aggregator returns the interval with both bounds null, a null average and count 0;
  and listings priced at most 100 never contribute: removing them from the input leaves
  the whole result unchanged.
\<close>

theorem aggregator_empty_or_all_filtered:
  "((cars = [] \<or> (\<forall>c \<in> set cars. preco_numerico c \<le> 100)) \<longrightarrow>
      calculate_price_interval F cars =
        Inr \<lparr>preco_intervalo_min = None, preco_intervalo_max = None, media_aproximada = None,
             viaturas_consideradas = 0, anuncios_usados_para_calculo = None\<rparr>)
   \<and> calculate_price_interval F (filter (\<lambda>c. preco_numerico c > 100) cars)
       = calculate_price_interval F cars"
proof (intro conjI impI)
  assume "cars = [] \<or> (\<forall>c \<in> set cars. preco_numerico c \<le> 100)"
  then have "filtered_prices cars = []"
    by (auto simp: filtered_prices_empty_iff)
  then show "calculate_price_interval F cars =
        Inr \<lparr>preco_intervalo_min = None, preco_intervalo_max = None, media_aproximada = None,
             viaturas_consideradas = 0, anuncios_usados_para_calculo = None\<rparr>"
    by (simp add: calculate_filtered_empty empty_stats_def)
next
  show "calculate_price_interval F (filter (\<lambda>c. preco_numerico c > 100) cars)
       = calculate_price_interval F cars"
  proof (cases "filtered_prices cars = []")
    case True
    then show ?thesis
      by (simp add: calculate_filtered_empty filtered_prices_filter)
  next
    case False
    then have "filtered_prices (filter (\<lambda>c. preco_numerico c > 100) cars) \<noteq> []"
      by (simp add: filtered_prices_filter)
    then show ?thesis
      using False
      by (simp add: calculate_nonempty filtered_prices_filter used_listings_filter
          del: filter_filter)
  qed
qed

theorem aggregator_empty_or_all_filtered_witness:
  "(([car_priced ''a'' 100, car_priced ''b'' 0] = []
      \<or> (\<forall>c \<in> set [car_priced ''a'' 100, car_priced ''b'' 0]. preco_numerico c \<le> 100)) \<and>
      calculate_price_interval exact_ops [car_priced ''a'' 100, car_priced ''b'' 0] =
        Inr \<lparr>preco_intervalo_min = None, preco_intervalo_max = None, media_aproximada = None,
             viaturas_consideradas = 0, anuncios_usados_para_calculo = None\<rparr>)
   \<and> calculate_price_interval exact_ops [car_priced ''c'' 300]
       = calculate_price_interval exact_ops [car_priced ''a'' 100, car_priced ''c'' 300, car_priced ''b'' 0]"
  using aggregator_empty_or_all_filtered
      [where cars = "[car_priced ''a'' 100, car_priced ''b'' 0]" and F = exact_ops]
    aggregator_empty_or_all_filtered
      [where cars = "[car_priced ''a'' 100, car_priced ''c'' 300, car_priced ''b'' 0]"
         and F = exact_ops]
  by (simp add: car_priced_def)

text \<open>
  Claim C9. When some listing is priced above 100, the list of source listings in the
  output is the input list (in input order, each as its dictionary) restricted to the
  listings whose numeric price is a member, by value, of the trimmed prices \<open>clean\<close>.
\<close>

theorem aggregator_used_listings:
  assumes "\<exists>c \<in> set cars. preco_numerico c > 100"
  shows "\<exists>r clean lo hi.
     calculate_price_interval F cars = Inr r
     \<and> sort (filtered_prices cars) = lo @ clean @ hi
     \<and> length lo = length (filtered_prices cars) div 20
     \<and> length hi = length (filtered_prices cars) div 20
     \<and> anuncios_usados_para_calculo r
         = Some (map to_dict (filter (\<lambda>c. preco_numerico c \<in> set clean) cars))"
proof -
  let ?s = "sort (filtered_prices cars)"
  let ?k = "length (filtered_prices cars) div 20"
  let ?clean = "sliced_prices ?s"
  have ne: "filtered_prices cars \<noteq> []"
    using assms by (simp add: filtered_prices_empty_iff not_le)
  have len: "length ?s = length (filtered_prices cars)"
    by simp
  have k: "2 * ?k \<le> length ?s"
    unfolding len by (rule twice_div20_le)
  have clean: "?clean = take (length ?s - 2 * ?k) (drop ?k ?s)"
    by (simp add: sliced_prices_eq)
  have split: "?s = take ?k ?s @ ?clean @ drop (length ?s - ?k) ?s"
    unfolding clean using k by (rule split_three)
  have lo: "length (take ?k ?s) = ?k"
    using k by simp
  have hi: "length (drop (length ?s - ?k) ?s) = ?k"
    using k by simp
  define r where "r = \<lparr>preco_intervalo_min = Some (Min (set ?clean)),
          preco_intervalo_max = Some (Max (set ?clean)),
          media_aproximada
            = Some (float_round2 F (float_div F (float_sum F ?clean) (length ?clean))),
          viaturas_consideradas = length ?clean,
          anuncios_usados_para_calculo = Some (map to_dict
            (filter (\<lambda>c. preco_numerico c \<in> set ?clean) cars))\<rparr>"
  have res: "calculate_price_interval F cars = Inr r"
    unfolding r_def using ne by (rule calculate_nonempty)
  have f: "anuncios_usados_para_calculo r
      = Some (map to_dict (filter (\<lambda>c. preco_numerico c \<in> set ?clean) cars))"
    by (simp add: r_def)
  from res split lo hi f show ?thesis
    by blast
qed

text \<open>
  Claim C10. When the trim count \<open>cut\<close> is positive, twice the count is below the length,
  the slice \<open>prices[cut:-cut]\<close> is not empty, so the fall-back that restores the untrimmed
  list never fires and the divisor of the average is positive; the aggregator never ends
  in an error.
\<close>

theorem trim_slice_nonempty:
  assumes "0 < cut_of prices"
  shows "2 * cut_of prices < length prices
     \<and> py_slice prices (int (cut_of prices)) (- int (cut_of prices)) \<noteq> []
     \<and> clean_prices_of prices = py_slice prices (int (cut_of prices)) (- int (cut_of prices))
     \<and> 0 < length (clean_prices_of prices)
     \<and> calculate_price_interval F cars \<noteq> Inl e"
proof -
  have "prices \<noteq> []"
    using assms by (auto simp: cut_of_div)
  then have pos: "0 < length prices"
    by simp
  have sl: "sliced_prices prices = py_slice prices (int (cut_of prices)) (- int (cut_of prices))"
    using assms by (simp add: sliced_prices_def Let_def)
  have ne: "sliced_prices prices \<noteq> []"
    using \<open>prices \<noteq> []\<close> by (rule sliced_prices_nonempty)
  have "2 * cut_of prices < length prices"
    unfolding cut_of_div using pos by (rule twice_div20_less)
  moreover have "py_slice prices (int (cut_of prices)) (- int (cut_of prices)) \<noteq> []"
    using ne sl by simp
  moreover have "clean_prices_of prices
      = py_slice prices (int (cut_of prices)) (- int (cut_of prices))"
    using sl by (simp add: clean_prices_of_eq)
  moreover have "0 < length (clean_prices_of prices)"
    using ne by (simp add: clean_prices_of_eq)
  moreover have "calculate_price_interval F cars \<noteq> Inl e"
    by (rule calculate_never_fails)
  ultimately show ?thesis
    by blast
qed


lemma tied_filtered: "filtered_prices tied_cars =
     [400, 400, 2100, 2000, 1900, 1800, 1700, 1600, 1500, 1400, 1300, 1200, 1100, 1000,
      900, 800, 700, 600, 500, 1000000]"
  by (simp add: tied_cars_def filtered_prices_def car_priced_def)

lemma tied_sorted: "sort (filtered_prices tied_cars) =
     [400, 400, 500, 600, 700, 800, 900, 1000, 1100, 1200, 1300, 1400, 1500, 1600, 1700,
      1800, 1900, 2000, 2100, 1000000]"
  unfolding tied_filtered by simp

theorem aggregator_used_listings_witness:
  "(\<exists>c \<in> set tied_cars. preco_numerico c > 100)
   \<and> (\<exists>r. calculate_price_interval exact_ops tied_cars = Inr r
        \<and> anuncios_usados_para_calculo r
            = Some (map to_dict (filter (\<lambda>c. preco_numerico c \<noteq> 1000000) tied_cars)))"
proof -
  have h: "\<exists>c \<in> set tied_cars. preco_numerico c > 100"
    by (simp add: tied_cars_def car_priced_def)
  from aggregator_used_listings [OF h, where F = exact_ops] obtain r clean lo hi where
    res: "calculate_price_interval exact_ops tied_cars = Inr r"
    and split: "sort (filtered_prices tied_cars) = lo @ clean @ hi"
    and lo: "length lo = length (filtered_prices tied_cars) div 20"
    and hi: "length hi = length (filtered_prices tied_cars) div 20"
    and used: "anuncios_usados_para_calculo r
         = Some (map to_dict (filter (\<lambda>c. preco_numerico c \<in> set clean) tied_cars))"
    by blast
  have "length lo = 1"
    using lo by (simp add: tied_filtered)
  then obtain a where a: "lo = [a]"
    by (cases lo) auto
  have "length hi = 1"
    using hi by (simp add: tied_filtered)
  then obtain b where b: "hi = [b]"
    by (cases hi) auto
  have "length clean = 18"
    using arg_cong [OF split, of length] by (simp add: a b tied_filtered)
  have clean: "clean = [400, 500, 600, 700, 800, 900, 1000, 1100, 1200, 1300, 1400, 1500, 1600,
      1700, 1800, 1900, 2000, 2100]"
    using split \<open>length clean = 18\<close> unfolding tied_sorted a b
    by (auto simp: length_Suc_conv Cons_eq_append_conv append_eq_Cons_conv)
  have "filter (\<lambda>c. preco_numerico c \<in> set clean) tied_cars
      = filter (\<lambda>c. preco_numerico c \<noteq> 1000000) tied_cars"
    unfolding clean by (simp add: tied_cars_def car_priced_def)
  with h res used show ?thesis
    by simp
qed

theorem trim_slice_nonempty_witness:
  "0 < cut_of twenty_prices
   \<and> 2 * cut_of twenty_prices < length twenty_prices
   \<and> py_slice twenty_prices 1 (- 1) \<noteq> []
   \<and> clean_prices_of twenty_prices = py_slice twenty_prices 1 (- 1)
   \<and> 0 < length (clean_prices_of twenty_prices)
   \<and> calculate_price_interval exact_ops demo_cars \<noteq> Inl ZeroDivisionError"
proof -
  have c: "cut_of twenty_prices = 1"
    by (simp add: cut_of_div twenty_prices_def)
  then have h: "0 < cut_of twenty_prices"
    by simp
  from trim_slice_nonempty
      [OF h, where F = exact_ops and cars = demo_cars and e = ZeroDivisionError]
  show ?thesis
    by (simp add: c)
qed

section \<open>Properties of deduplication\<close>

lemma map_of_dict_set: "map_of (dict_set d k v) = (map_of d)(k \<mapsto> v)"
  by (induction d k v rule: dict_set.induct) auto

lemma keys_dict_set: "set (map fst (dict_set d k v)) = insert k (set (map fst d))"
  by (induction d k v rule: dict_set.induct) auto

lemma distinct_dict_set: "distinct (map fst d) \<Longrightarrow> distinct (map fst (dict_set d k v))"
proof (induction d k v rule: dict_set.induct)
  case (1 k v)
  then show ?case by simp
next
  case (2 k' v' d k v)
  then show ?case
    using keys_dict_set [of d k v] by auto
qed

lemma distinct_dedup_loop:
  "distinct (map fst d) \<Longrightarrow> distinct (map fst (dedup_loop d cars))"
  unfolding dedup_loop_def
  by (induction cars arbitrary: d) (simp_all add: distinct_dict_set)

lemma map_of_dedup_loop:
  "map_of (dedup_loop d cars) k =
     (if filter (\<lambda>c. dedup_key c = k) cars = [] then map_of d k
      else Some (last (filter (\<lambda>c. dedup_key c = k) cars)))"
  unfolding dedup_loop_def
proof (induction cars arbitrary: d)
  case Nil
  then show ?case by simp
next
  case (Cons c cars)
  show ?case
    by (simp add: Cons.IH map_of_dict_set)
qed

lemma keyed_dict_set: "keyed d \<Longrightarrow> keyed (dict_set d (dedup_key c) c)"
  unfolding keyed_def
  by (induction d "dedup_key c" c rule: dict_set.induct) auto

lemma keyed_dedup_loop: "keyed d \<Longrightarrow> keyed (dedup_loop d cars)"
  unfolding dedup_loop_def
  by (induction cars arbitrary: d) (simp_all add: keyed_dict_set)

lemma values_with_key:
  "keyed d \<Longrightarrow> distinct (map fst d) \<Longrightarrow>
     filter (\<lambda>c. dedup_key c = k) (dict_values d) =
       (case map_of d k of None \<Rightarrow> [] | Some c \<Rightarrow> [c])"
proof (induction d)
  case Nil
  then show ?case by (simp add: dict_values_def)
next
  case (Cons e d)
  obtain k' c' where e: "e = (k', c')"
    by (cases e)
  from Cons.prems have key: "dedup_key c' = k'" and kd: "keyed d"
    and fresh: "k' \<notin> fst ` set d" and dist: "distinct (map fst d)"
    by (auto simp: keyed_def e)
  have IH: "filter (\<lambda>c. dedup_key c = k) (dict_values d) =
       (case map_of d k of None \<Rightarrow> [] | Some c \<Rightarrow> [c])"
    using kd dist by (rule Cons.IH)
  show ?case
  proof (cases "k' = k")
    case True
    then have "map_of d k = None"
      using fresh by (simp add: map_of_eq_None_iff)
    then show ?thesis
      using IH True key by (simp add: dict_values_def e)
  next
    case False
    then show ?thesis
      using IH key by (simp add: dict_values_def e)
  qed
qed


lemma keys_of_values: "keyed d \<Longrightarrow> map dedup_key (dict_values d) = map fst d"
  by (induction d) (auto simp: keyed_def dict_values_def)

lemma deduplicate_with_key:
  "filter (\<lambda>d. dedup_key d = k) (deduplicate cars) =
     (if \<exists>c \<in> set cars. dedup_key c = k
      then [last (filter (\<lambda>c. dedup_key c = k) cars)] else [])"
proof -
  have kd: "keyed (dedup_loop [] cars)"
    by (rule keyed_dedup_loop) (simp add: keyed_def)
  have dist: "distinct (map fst (dedup_loop [] cars))"
    by (rule distinct_dedup_loop) simp
  have "(filter (\<lambda>c. dedup_key c = k) cars = []) = (\<not> (\<exists>c \<in> set cars. dedup_key c = k))"
    by (auto simp: filter_empty_conv)
  then show ?thesis
    unfolding deduplicate_def values_with_key [OF kd dist] map_of_dedup_loop
    by simp
qed

lemma deduplicate_subset: "set (deduplicate cars) \<subseteq> set cars"
proof
  fix c
  assume c: "c \<in> set (deduplicate cars)"
  then have "c \<in> set (filter (\<lambda>d. dedup_key d = dedup_key c) (deduplicate cars))"
    by simp
  then have ex: "\<exists>x \<in> set cars. dedup_key x = dedup_key c"
    and "c = last (filter (\<lambda>x. dedup_key x = dedup_key c) cars)"
    unfolding deduplicate_with_key by (auto split: if_splits)
  moreover from ex have "filter (\<lambda>x. dedup_key x = dedup_key c) cars \<noteq> []"
    by (auto simp: filter_empty_conv)
  ultimately have "c \<in> set (filter (\<lambda>x. dedup_key x = dedup_key c) cars)"
    using last_in_set by metis
  then show "c \<in> set cars"
    by simp
qed

lemma deduplicate_distinct_keys: "distinct (map dedup_key (deduplicate cars))"
proof -
  have kd: "keyed (dedup_loop [] cars)"
    by (rule keyed_dedup_loop) (simp add: keyed_def)
  have dist: "distinct (map fst (dedup_loop [] cars))"
    by (rule distinct_dedup_loop) simp
  show ?thesis
    unfolding deduplicate_def keys_of_values [OF kd] by (rule dist)
qed

text \<open>
  Claim C3. A listing is keyed by its URL when it has a non-empty one, else by the
  composite of title, display price and mileage. For every key, the survivors with that
  key are exactly one listing when some input listing has the key, and it is the last
  input listing with that key; no survivor is invented and no two survivors share a key.
\<close>

theorem deduplicate_last_write_wins:
  "(\<forall>u. url c = Some u \<and> u \<noteq> [] \<longrightarrow> dedup_key c = u)
   \<and> (url c = None \<or> url c = Some [] \<longrightarrow>
        dedup_key c = titulo c @ ''_'' @ preco c @ ''_'' @
          (case quilometragem c of None \<Rightarrow> ''None'' | Some km \<Rightarrow> km))
   \<and> filter (\<lambda>d. dedup_key d = k) (deduplicate cars) =
       (if \<exists>c \<in> set cars. dedup_key c = k
        then [last (filter (\<lambda>c. dedup_key c = k) cars)] else [])
   \<and> set (deduplicate cars) \<subseteq> set cars
   \<and> distinct (map dedup_key (deduplicate cars))"
proof -
  have "\<forall>u. url c = Some u \<and> u \<noteq> [] \<longrightarrow> dedup_key c = u"
    by (simp add: dedup_key_def)
  moreover have "url c = None \<or> url c = Some [] \<longrightarrow>
        dedup_key c = titulo c @ ''_'' @ preco c @ ''_'' @
          (case quilometragem c of None \<Rightarrow> ''None'' | Some km \<Rightarrow> km)"
    by (auto simp: dedup_key_def composite_key_def)
  ultimately show ?thesis
    using deduplicate_with_key [of k cars] deduplicate_subset [of cars]
      deduplicate_distinct_keys [of cars]
    by blast
qed

theorem deduplicate_last_write_wins_witness:
  "url (car_priced ''u1'' 900) = Some ''u1'' \<and> ''u1'' \<noteq> []
   \<and> dedup_key (car_priced ''u1'' 900) = ''u1''
   \<and> url (car_priced [] 900) = Some []
   \<and> dedup_key (car_priced [] 900) = ''Car_0 PLN_None''
   \<and> (\<exists>c \<in> set [car_priced ''u1'' 500, car_priced ''u2'' 700, car_priced ''u1'' 900].
         dedup_key c = ''u1'')
   \<and> deduplicate [car_priced ''u1'' 500, car_priced ''u2'' 700, car_priced ''u1'' 900]
       = [car_priced ''u1'' 900, car_priced ''u2'' 700]
   \<and> filter (\<lambda>d. dedup_key d = ''u1'')
        (deduplicate [car_priced ''u1'' 500, car_priced ''u2'' 700, car_priced ''u1'' 900])
       = [car_priced ''u1'' 900]"
proof -
  have k: "dedup_key (car_priced u p) = (if u = [] then ''Car_0 PLN_None'' else u)" for u p
    by (simp add: dedup_key_def composite_key_def car_priced_def)
  have d: "deduplicate [car_priced ''u1'' 500, car_priced ''u2'' 700, car_priced ''u1'' 900]
       = [car_priced ''u1'' 900, car_priced ''u2'' 700]"
    by (simp add: deduplicate_def dedup_loop_def dict_values_def k)
  have u: "url (car_priced u p) = Some u" for u p
    by (simp add: car_priced_def)
  show ?thesis
    using deduplicate_last_write_wins [of "car_priced ''u1'' 900" "''u1''"
      "[car_priced ''u1'' 500, car_priced ''u2'' 700, car_priced ''u1'' 900]"]
      deduplicate_last_write_wins [of "car_priced [] 900" "''u1''" "[]"]
    by (simp add: d k u)
qed

section \<open>Properties of the URL builder\<close>

lemma dict_set_fresh: "k \<notin> fst ` set d \<Longrightarrow> dict_set d k v = d @ [(k, v)]"
  by (induction d k v rule: dict_set.induct) auto

lemma put_if_fresh: "k \<notin> fst ` set q \<Longrightarrow> put_if c k v q = q @ entry_if c (k, v)"
  by (simp add: put_if_def entry_if_def dict_set_fresh)

lemma key_entry_if: "k' \<in> fst ` set (entry_if c (k, v)) \<longleftrightarrow> c \<and> k' = k"
  by (auto simp: entry_if_def)

lemma if_put_if: "(if c then dict_set q k v else q) = put_if c k v q"
  by (simp add: put_if_def)

lemma guarded_lookup:
  "(if a \<and> dict_contains m k
    then (case dict_subscript m k of
            Inl e \<Rightarrow> Inl e
          | Inr t \<Rightarrow> Inr (dict_set q key (QStr t)))
    else Inr q)
   = Inr (put_if (a \<and> dict_contains m k) key (QStr (the (map_of m k))) q)"
  by (auto simp: put_if_def dict_contains_def dict_subscript_def)

lemma sum_case_Inr: "(case Inr x of Inl e \<Rightarrow> Inl e | Inr q \<Rightarrow> f q) = f x"
  by simp

lemma query_params_chain:
  "query_params params page =
     Inr (put_if (truthy_str (caixa params) \<and> dict_contains TRANSMISSION_MAP (the (caixa params)))
            ''search[filter_enum_gearbox]''
            (QStr (the (map_of TRANSMISSION_MAP (the (caixa params)))))
         (put_if (truthy_str (CarSearchParams.combustivel params)
                   \<and> dict_contains FUEL_TYPE_MAP (the (CarSearchParams.combustivel params)))
            ''search[filter_enum_fuel_type]''
            (QStr (the (map_of FUEL_TYPE_MAP (the (CarSearchParams.combustivel params)))))
         (put_if (truthy_int (preco_max params)) ''search[filter_float_price:to]''
            (QInt (the (preco_max params)))
         (put_if (truthy_int (km_max params)) ''search[filter_float_mileage:to]''
            (QInt (the (km_max params)))
         (put_if (truthy_int (ano_max params)) ''search[filter_float_year:to]''
            (QInt (the (ano_max params)))
         (put_if (truthy_int (ano_min params)) ''search[filter_float_year:from]''
            (QInt (the (ano_min params)))
         (put_if (truthy_str (modelo params)) ''search[filter_enum_model]''
            (QStr (the (modelo params)))
         (put_if (truthy_str (marca params)) ''search[filter_enum_make]''
            (QStr (the (marca params)))
         (put_if (page > 1) ''page'' (QInt page)
            [(''search[advanced_search_expanded]'', QStr ''true'')])))))))))"
  unfolding query_params_def if_put_if guarded_lookup sum_case_Inr Let_def
  by (rule refl)

lemma query_params_normal:
  "query_params params page =
     Inr ([(''search[advanced_search_expanded]'', QStr ''true'')]
       @ entry_if (page > 1) (''page'', QInt page)
       @ entry_if (truthy_str (marca params))
           (''search[filter_enum_make]'', QStr (the (marca params)))
       @ entry_if (truthy_str (modelo params))
           (''search[filter_enum_model]'', QStr (the (modelo params)))
       @ entry_if (truthy_int (ano_min params))
           (''search[filter_float_year:from]'', QInt (the (ano_min params)))
       @ entry_if (truthy_int (ano_max params))
           (''search[filter_float_year:to]'', QInt (the (ano_max params)))
       @ entry_if (truthy_int (km_max params))
           (''search[filter_float_mileage:to]'', QInt (the (km_max params)))
       @ entry_if (truthy_int (preco_max params))
           (''search[filter_float_price:to]'', QInt (the (preco_max params)))
       @ entry_if (truthy_str (CarSearchParams.combustivel params)
                   \<and> dict_contains FUEL_TYPE_MAP (the (CarSearchParams.combustivel params)))
           (''search[filter_enum_fuel_type]'',
            QStr (the (map_of FUEL_TYPE_MAP (the (CarSearchParams.combustivel params)))))
       @ entry_if (truthy_str (caixa params)
                   \<and> dict_contains TRANSMISSION_MAP (the (caixa params)))
           (''search[filter_enum_gearbox]'',
            QStr (the (map_of TRANSMISSION_MAP (the (caixa params))))))"
  unfolding query_params_chain
  by (simp add: put_if_fresh key_entry_if image_Un)


lemma split_on_single: "c \<notin> set x \<Longrightarrow> split_on c x = [x]"
  by (induction x) auto

lemma split_on_append:
  "c \<notin> set x \<Longrightarrow> split_on c (x @ c # rest) = x # split_on c rest"
  by (induction x) auto

lemma split_on_join:
  "xs \<noteq> [] \<Longrightarrow> \<forall>x \<in> set xs. c \<notin> set x \<Longrightarrow> split_on c (join [c] xs) = xs"
proof (induction xs rule: induct_list012)
  case 1
  then show ?case by simp
next
  case (2 x)
  then show ?case by (simp add: split_on_single)
next
  case (3 x y ys)
  then have "split_on c (join [c] (y # ys)) = y # ys"
    by simp
  moreover have "c \<notin> set x"
    using 3 by simp
  ultimately show ?case
    by (simp add: split_on_append)
qed

lemma split_pair_eq: "CHR ''='' \<notin> set k \<Longrightarrow> split_pair (k @ ''='' @ v) = (k, v)"
  by (simp add: split_pair_def takeWhile_append dropWhile_append takeWhile_eq_all_conv [THEN iffD2]
      dropWhile_eq_Nil_conv [THEN iffD2])

lemma hex_digit_range: "n < 16 \<Longrightarrow> hex_digit n \<in> set ''0123456789ABCDEF''"
  unfolding hex_digit_def by (rule nth_mem) simp

lemma of_char_div_16: "(of_char c :: nat) div 16 < 16"
proof -
  have "(of_char c :: nat) < 256"
    by (rule nat_of_char_less_256)
  then show ?thesis by linarith
qed

lemma not_always_safe:
  "\<not> always_safe CHR ''&''" "\<not> always_safe CHR ''=''" "\<not> always_safe CHR ''?''"
  by (simp_all add: always_safe_def)

lemma quote_byte_chars:
  "x \<in> set (quote_byte c) \<Longrightarrow> x \<noteq> CHR ''&'' \<and> x \<noteq> CHR ''='' \<and> x \<noteq> CHR ''?''"
proof -
  assume x: "x \<in> set (quote_byte c)"
  define H where "H = set ''0123456789ABCDEF''"
  have h1: "hex_digit ((of_char c :: nat) div 16) \<in> H"
    unfolding H_def by (rule hex_digit_range) (rule of_char_div_16)
  have h2: "hex_digit ((of_char c :: nat) mod 16) \<in> H"
    unfolding H_def by (rule hex_digit_range) simp
  consider "always_safe x" | "x = CHR ''+''" | "x = CHR ''%''" | "x \<in> H"
    using x h1 h2 by (auto simp: quote_byte_def split: if_splits)
  then show ?thesis
  proof cases
    case 1
    then show ?thesis using not_always_safe by blast
  next
    case 2
    then show ?thesis by simp
  next
    case 3
    then show ?thesis by simp
  next
    case 4
    then show ?thesis unfolding H_def by auto
  qed
qed

lemma quote_plus_chars:
  "x \<in> set (quote_plus s) \<Longrightarrow> x \<noteq> CHR ''&'' \<and> x \<noteq> CHR ''='' \<and> x \<noteq> CHR ''?''"
  unfolding quote_plus_def using quote_byte_chars by auto


lemma url_query_build: "url_query (OTOMOTO_SEARCH_URL @ ''?'' @ s) = s"
  by (simp add: url_query_def OTOMOTO_SEARCH_URL_def OTOMOTO_BASE_URL_def)

lemma url_pairs_build:
  assumes "q \<noteq> []"
  shows "url_pairs (OTOMOTO_SEARCH_URL @ ''?'' @ urlencode q) = map encode_pair q"
proof -
  let ?parts = "map (\<lambda>(k, v). quote_plus k @ ''='' @ quote_plus (str_qvalue v)) q"
  have ne: "?parts \<noteq> []"
    using assms by simp
  have amp: "\<forall>x \<in> set ?parts. CHR ''&'' \<notin> set x"
    using quote_plus_chars by fastforce
  have split: "split_on CHR ''&'' (join ''&'' ?parts) = ?parts"
    using ne amp by (rule split_on_join)
  have "url_pairs (OTOMOTO_SEARCH_URL @ ''?'' @ urlencode q) = map split_pair ?parts"
    unfolding url_pairs_def urlencode_def url_query_build by (simp only: split)
  also have "\<dots> = map encode_pair q"
  proof -
    have "split_pair (quote_plus k @ ''='' @ quote_plus (str_qvalue v)) = encode_pair (k, v)"
      for k v
    proof -
      have "CHR ''='' \<notin> set (quote_plus k)"
        using quote_plus_chars by blast
      then show ?thesis
        unfolding encode_pair_def fst_conv snd_conv by (rule split_pair_eq)
    qed
    then show ?thesis
      by (auto simp: comp_def)
  qed
  finally show ?thesis .
qed


lemma quote_plus_keys:
  "quote_plus ''search[advanced_search_expanded]'' = ''search%5Badvanced_search_expanded%5D''"
  "quote_plus ''page'' = ''page''"
  "quote_plus ''true'' = ''true''"
  "quote_plus ''search[filter_enum_make]'' = ''search%5Bfilter_enum_make%5D''"
  "quote_plus ''search[filter_enum_model]'' = ''search%5Bfilter_enum_model%5D''"
  "quote_plus ''search[filter_float_year:from]'' = ''search%5Bfilter_float_year%3Afrom%5D''"
  "quote_plus ''search[filter_float_year:to]'' = ''search%5Bfilter_float_year%3Ato%5D''"
  "quote_plus ''search[filter_float_mileage:to]'' = ''search%5Bfilter_float_mileage%3Ato%5D''"
  "quote_plus ''search[filter_float_price:to]'' = ''search%5Bfilter_float_price%3Ato%5D''"
  "quote_plus ''search[filter_enum_fuel_type]'' = ''search%5Bfilter_enum_fuel_type%5D''"
  "quote_plus ''search[filter_enum_gearbox]'' = ''search%5Bfilter_enum_gearbox%5D''"
  by (simp_all add: quote_plus_def quote_byte_def always_safe_def hex_digit_def)

lemma quote_plus_safe: "\<forall>c \<in> set s. always_safe c \<Longrightarrow> quote_plus s = s"
  by (induction s) (simp_all add: quote_plus_def quote_byte_def)

lemma digit_char_safe: "n < 10 \<Longrightarrow> always_safe (digit_char n)"
proof -
  assume "n < 10"
  then have "n \<in> {0, 1, 2, 3, 4, 5, 6, 7, 8, 9}"
    by auto
  then show ?thesis
    by (auto simp: digit_char_def always_safe_def)
qed

lemma str_nat_safe: "\<forall>c \<in> set (str_nat n). always_safe c"
proof (induction n rule: str_nat.induct)
  case (1 n)
  show ?case
  proof (cases "n < 10")
    case True
    then show ?thesis
      by (subst str_nat.simps) (simp add: digit_char_safe)
  next
    case False
    then have "\<forall>c \<in> set (str_nat (n div 10)). always_safe c"
      by (rule "1.IH")
    then show ?thesis
      using False by (subst str_nat.simps) (simp add: digit_char_safe)
  qed
qed

lemma str_int_safe: "\<forall>c \<in> set (str_int i). always_safe c"
proof -
  have "always_safe CHR ''-''"
    by (simp add: always_safe_def)
  then show ?thesis
    using str_nat_safe by (simp add: str_int_def)
qed

lemma quote_plus_str_int: "quote_plus (str_int i) = str_int i"
  using str_int_safe by (rule quote_plus_safe)

lemma map_entry_if: "map f (entry_if c e) = entry_if c (f e)"
  by (simp add: entry_if_def)

lemma build_url_pairs:
  "\<exists>u. build_url params page = Inr u \<and>
     url_pairs u =
       [(''search%5Badvanced_search_expanded%5D'', ''true'')]
       @ entry_if (page > 1) (''page'', str_int page)
       @ entry_if (truthy_str (marca params))
           (''search%5Bfilter_enum_make%5D'', quote_plus (the (marca params)))
       @ entry_if (truthy_str (modelo params))
           (''search%5Bfilter_enum_model%5D'', quote_plus (the (modelo params)))
       @ entry_if (truthy_int (ano_min params))
           (''search%5Bfilter_float_year%3Afrom%5D'', str_int (the (ano_min params)))
       @ entry_if (truthy_int (ano_max params))
           (''search%5Bfilter_float_year%3Ato%5D'', str_int (the (ano_max params)))
       @ entry_if (truthy_int (km_max params))
           (''search%5Bfilter_float_mileage%3Ato%5D'', str_int (the (km_max params)))
       @ entry_if (truthy_int (preco_max params))
           (''search%5Bfilter_float_price%3Ato%5D'', str_int (the (preco_max params)))
       @ entry_if (truthy_str (CarSearchParams.combustivel params)
                   \<and> dict_contains FUEL_TYPE_MAP (the (CarSearchParams.combustivel params)))
           (''search%5Bfilter_enum_fuel_type%5D'',
            quote_plus (the (map_of FUEL_TYPE_MAP (the (CarSearchParams.combustivel params)))))
       @ entry_if (truthy_str (caixa params)
                   \<and> dict_contains TRANSMISSION_MAP (the (caixa params)))
           (''search%5Bfilter_enum_gearbox%5D'',
            quote_plus (the (map_of TRANSMISSION_MAP (the (caixa params)))))"
proof -
  obtain q where q: "query_params params page = Inr q" and ne: "q \<noteq> []"
    and form: "q = [(''search[advanced_search_expanded]'', QStr ''true'')]
       @ entry_if (page > 1) (''page'', QInt page)
       @ entry_if (truthy_str (marca params))
           (''search[filter_enum_make]'', QStr (the (marca params)))
       @ entry_if (truthy_str (modelo params))
           (''search[filter_enum_model]'', QStr (the (modelo params)))
       @ entry_if (truthy_int (ano_min params))
           (''search[filter_float_year:from]'', QInt (the (ano_min params)))
       @ entry_if (truthy_int (ano_max params))
           (''search[filter_float_year:to]'', QInt (the (ano_max params)))
       @ entry_if (truthy_int (km_max params))
           (''search[filter_float_mileage:to]'', QInt (the (km_max params)))
       @ entry_if (truthy_int (preco_max params))
           (''search[filter_float_price:to]'', QInt (the (preco_max params)))
       @ entry_if (truthy_str (CarSearchParams.combustivel params)
                   \<and> dict_contains FUEL_TYPE_MAP (the (CarSearchParams.combustivel params)))
           (''search[filter_enum_fuel_type]'',
            QStr (the (map_of FUEL_TYPE_MAP (the (CarSearchParams.combustivel params)))))
       @ entry_if (truthy_str (caixa params)
                   \<and> dict_contains TRANSMISSION_MAP (the (caixa params)))
           (''search[filter_enum_gearbox]'',
            QStr (the (map_of TRANSMISSION_MAP (the (caixa params)))))"
    using query_params_normal [of params page] by simp
  have u: "build_url params page = Inr (OTOMOTO_SEARCH_URL @ ''?'' @ urlencode q)"
    by (simp add: build_url_def q)
  have "url_pairs (OTOMOTO_SEARCH_URL @ ''?'' @ urlencode q) = map encode_pair q"
    using ne by (rule url_pairs_build)
  also have "\<dots> = [(''search%5Badvanced_search_expanded%5D'', ''true'')]
       @ entry_if (page > 1) (''page'', str_int page)
       @ entry_if (truthy_str (marca params))
           (''search%5Bfilter_enum_make%5D'', quote_plus (the (marca params)))
       @ entry_if (truthy_str (modelo params))
           (''search%5Bfilter_enum_model%5D'', quote_plus (the (modelo params)))
       @ entry_if (truthy_int (ano_min params))
           (''search%5Bfilter_float_year%3Afrom%5D'', str_int (the (ano_min params)))
       @ entry_if (truthy_int (ano_max params))
           (''search%5Bfilter_float_year%3Ato%5D'', str_int (the (ano_max params)))
       @ entry_if (truthy_int (km_max params))
           (''search%5Bfilter_float_mileage%3Ato%5D'', str_int (the (km_max params)))
       @ entry_if (truthy_int (preco_max params))
           (''search%5Bfilter_float_price%3Ato%5D'', str_int (the (preco_max params)))
       @ entry_if (truthy_str (CarSearchParams.combustivel params)
                   \<and> dict_contains FUEL_TYPE_MAP (the (CarSearchParams.combustivel params)))
           (''search%5Bfilter_enum_fuel_type%5D'',
            quote_plus (the (map_of FUEL_TYPE_MAP (the (CarSearchParams.combustivel params)))))
       @ entry_if (truthy_str (caixa params)
                   \<and> dict_contains TRANSMISSION_MAP (the (caixa params)))
           (''search%5Bfilter_enum_gearbox%5D'',
            quote_plus (the (map_of TRANSMISSION_MAP (the (caixa params)))))"
    unfolding form map_append map_entry_if list.map encode_pair_def fst_conv snd_conv
      str_qvalue.simps quote_plus_keys quote_plus_str_int
    by (rule refl)
  finally show ?thesis
    using u by blast
qed


lemma filter_entry_if: "filter P (entry_if c e) = entry_if (c \<and> P e) e"
  by (simp add: entry_if_def)

lemma entry_if_False: "entry_if False e = []"
  by (simp add: entry_if_def)

lemma entry_if_True: "entry_if True e = [e]"
  by (simp add: entry_if_def)

text \<open>
  Claim C4. Every built URL carries the advanced-search marker. Read back as query
  parameters, the URL for a page not above 1 (page 1 in particular) has no \<open>page\<close> key,
  and the URL for a page above 1 has exactly one \<open>page\<close> parameter, whose value is that
  page number in decimal.
\<close>

theorem build_url_page_parameter:
  "\<exists>u. build_url params page = Inr u
     \<and> (page \<le> 1 \<longrightarrow> ''page'' \<notin> fst ` set (url_pairs u))
     \<and> (page > 1 \<longrightarrow>
          filter (\<lambda>kv. fst kv = ''page'') (url_pairs u) = [(''page'', str_int page)])
     \<and> (''search%5Badvanced_search_expanded%5D'', ''true'') \<in> set (url_pairs u)"
proof -
  from build_url_pairs [of params page] obtain u where
    u: "build_url params page = Inr u" and
    pairs: "url_pairs u =
       [(''search%5Badvanced_search_expanded%5D'', ''true'')]
       @ entry_if (page > 1) (''page'', str_int page)
       @ entry_if (truthy_str (marca params))
           (''search%5Bfilter_enum_make%5D'', quote_plus (the (marca params)))
       @ entry_if (truthy_str (modelo params))
           (''search%5Bfilter_enum_model%5D'', quote_plus (the (modelo params)))
       @ entry_if (truthy_int (ano_min params))
           (''search%5Bfilter_float_year%3Afrom%5D'', str_int (the (ano_min params)))
       @ entry_if (truthy_int (ano_max params))
           (''search%5Bfilter_float_year%3Ato%5D'', str_int (the (ano_max params)))
       @ entry_if (truthy_int (km_max params))
           (''search%5Bfilter_float_mileage%3Ato%5D'', str_int (the (km_max params)))
       @ entry_if (truthy_int (preco_max params))
           (''search%5Bfilter_float_price%3Ato%5D'', str_int (the (preco_max params)))
       @ entry_if (truthy_str (CarSearchParams.combustivel params)
                   \<and> dict_contains FUEL_TYPE_MAP (the (CarSearchParams.combustivel params)))
           (''search%5Bfilter_enum_fuel_type%5D'',
            quote_plus (the (map_of FUEL_TYPE_MAP (the (CarSearchParams.combustivel params)))))
       @ entry_if (truthy_str (caixa params)
                   \<and> dict_contains TRANSMISSION_MAP (the (caixa params)))
           (''search%5Bfilter_enum_gearbox%5D'',
            quote_plus (the (map_of TRANSMISSION_MAP (the (caixa params)))))"
    by blast
  have flt: "filter (\<lambda>kv. fst kv = ''page'') (url_pairs u)
      = entry_if (page > 1) (''page'', str_int page)"
    unfolding pairs by (simp add: filter_entry_if entry_if_False)
  have none: "page \<le> 1 \<longrightarrow> ''page'' \<notin> fst ` set (url_pairs u)"
  proof
    assume "page \<le> 1"
    then have "filter (\<lambda>kv. fst kv = ''page'') (url_pairs u) = []"
      unfolding flt by (simp add: entry_if_def)
    then show "''page'' \<notin> fst ` set (url_pairs u)"
      by (auto simp: filter_empty_conv)
  qed
  have one: "page > 1 \<longrightarrow>
      filter (\<lambda>kv. fst kv = ''page'') (url_pairs u) = [(''page'', str_int page)]"
    unfolding flt by (simp add: entry_if_def)
  have marker: "(''search%5Badvanced_search_expanded%5D'', ''true'') \<in> set (url_pairs u)"
    unfolding pairs by simp
  from u none one marker show ?thesis
    by blast
qed

lemma str_int_3: "str_int 3 = ''3''"
  by (simp add: str_int_def str_nat.simps digit_char_def)

lemma str_int_2020: "str_int 2020 = ''2020''"
  by (simp add: str_int_def str_nat.simps digit_char_def)

lemma demo_query_3: "query_params demo_params 3 = Inr
   [(''search[advanced_search_expanded]'', QStr ''true''), (''page'', QInt 3),
    (''search[filter_enum_make]'', QStr ''bmw''), (''search[filter_enum_model]'', QStr ''x5''),
    (''search[filter_float_year:to]'', QInt 2020),
    (''search[filter_float_price:to]'', QInt 50000),
    (''search[filter_enum_gearbox]'', QStr ''automatic'')]"
  unfolding query_params_normal
  by (simp add: demo_params_def entry_if_def dict_contains_def FUEL_TYPE_MAP_def
      TRANSMISSION_MAP_def)


lemma quote_plus_values:
  "quote_plus ''bmw'' = ''bmw''" "quote_plus ''x5'' = ''x5''"
  "quote_plus ''automatic'' = ''automatic''" "quote_plus ''3'' = ''3''"
  "quote_plus ''2020'' = ''2020''" "quote_plus ''50000'' = ''50000''"
  by (simp_all add: quote_plus_def quote_byte_def always_safe_def)

lemma str_int_values: "str_int 3 = ''3''" "str_int 2020 = ''2020''" "str_int 50000 = ''50000''"
  by (simp_all add: str_int_def str_nat.simps digit_char_def)

lemma demo_url_3: "build_url demo_params 3 = Inr
  ''https://www.otomoto.pl/osobowe?search%5Badvanced_search_expanded%5D=true&page=3&search%5Bfilter_enum_make%5D=bmw&search%5Bfilter_enum_model%5D=x5&search%5Bfilter_float_year%3Ato%5D=2020&search%5Bfilter_float_price%3Ato%5D=50000&search%5Bfilter_enum_gearbox%5D=automatic''"
  unfolding build_url_def demo_query_3
  by (simp add: urlencode_def quote_plus_keys quote_plus_values str_int_values
      OTOMOTO_SEARCH_URL_def OTOMOTO_BASE_URL_def)


lemma demo_query_1: "query_params demo_params 1 = Inr
   [(''search[advanced_search_expanded]'', QStr ''true''),
    (''search[filter_enum_make]'', QStr ''bmw''), (''search[filter_enum_model]'', QStr ''x5''),
    (''search[filter_float_year:to]'', QInt 2020),
    (''search[filter_float_price:to]'', QInt 50000),
    (''search[filter_enum_gearbox]'', QStr ''automatic'')]"
  unfolding query_params_normal
  by (simp add: demo_params_def entry_if_def dict_contains_def FUEL_TYPE_MAP_def
      TRANSMISSION_MAP_def)

lemma demo_url_1: "build_url demo_params 1 = Inr
  ''https://www.otomoto.pl/osobowe?search%5Badvanced_search_expanded%5D=true&search%5Bfilter_enum_make%5D=bmw&search%5Bfilter_enum_model%5D=x5&search%5Bfilter_float_year%3Ato%5D=2020&search%5Bfilter_float_price%3Ato%5D=50000&search%5Bfilter_enum_gearbox%5D=automatic''"
  unfolding build_url_def demo_query_1
  by (simp add: urlencode_def quote_plus_keys quote_plus_values str_int_values
      OTOMOTO_SEARCH_URL_def OTOMOTO_BASE_URL_def)

theorem build_url_page_parameter_witness:
  "(1::int) \<le> 1 \<and> (3::int) > 1
   \<and> build_url demo_params 1 = Inr
  ''https://www.otomoto.pl/osobowe?search%5Badvanced_search_expanded%5D=true&search%5Bfilter_enum_make%5D=bmw&search%5Bfilter_enum_model%5D=x5&search%5Bfilter_float_year%3Ato%5D=2020&search%5Bfilter_float_price%3Ato%5D=50000&search%5Bfilter_enum_gearbox%5D=automatic''
   \<and> ''page'' \<notin> fst ` set (url_pairs
  ''https://www.otomoto.pl/osobowe?search%5Badvanced_search_expanded%5D=true&search%5Bfilter_enum_make%5D=bmw&search%5Bfilter_enum_model%5D=x5&search%5Bfilter_float_year%3Ato%5D=2020&search%5Bfilter_float_price%3Ato%5D=50000&search%5Bfilter_enum_gearbox%5D=automatic'')
   \<and> build_url demo_params 3 = Inr
  ''https://www.otomoto.pl/osobowe?search%5Badvanced_search_expanded%5D=true&page=3&search%5Bfilter_enum_make%5D=bmw&search%5Bfilter_enum_model%5D=x5&search%5Bfilter_float_year%3Ato%5D=2020&search%5Bfilter_float_price%3Ato%5D=50000&search%5Bfilter_enum_gearbox%5D=automatic''
   \<and> filter (\<lambda>kv. fst kv = ''page'') (url_pairs
  ''https://www.otomoto.pl/osobowe?search%5Badvanced_search_expanded%5D=true&page=3&search%5Bfilter_enum_make%5D=bmw&search%5Bfilter_enum_model%5D=x5&search%5Bfilter_float_year%3Ato%5D=2020&search%5Bfilter_float_price%3Ato%5D=50000&search%5Bfilter_enum_gearbox%5D=automatic'')
      = [(''page'', ''3'')]"
proof -
  from build_url_page_parameter [of demo_params 1] obtain u1 where
    "build_url demo_params 1 = Inr u1" and "''page'' \<notin> fst ` set (url_pairs u1)"
    by auto
  then have a: "''page'' \<notin> fst ` set (url_pairs
  ''https://www.otomoto.pl/osobowe?search%5Badvanced_search_expanded%5D=true&search%5Bfilter_enum_make%5D=bmw&search%5Bfilter_enum_model%5D=x5&search%5Bfilter_float_year%3Ato%5D=2020&search%5Bfilter_float_price%3Ato%5D=50000&search%5Bfilter_enum_gearbox%5D=automatic'')"
    unfolding demo_url_1 by (simp only: sum.inject simp_thms)
  from build_url_page_parameter [of demo_params 3] obtain u3 where
    "build_url demo_params 3 = Inr u3"
    and "filter (\<lambda>kv. fst kv = ''page'') (url_pairs u3) = [(''page'', str_int 3)]"
    by auto
  then have b: "filter (\<lambda>kv. fst kv = ''page'') (url_pairs
  ''https://www.otomoto.pl/osobowe?search%5Badvanced_search_expanded%5D=true&page=3&search%5Bfilter_enum_make%5D=bmw&search%5Bfilter_enum_model%5D=x5&search%5Bfilter_float_year%3Ato%5D=2020&search%5Bfilter_float_price%3Ato%5D=50000&search%5Bfilter_enum_gearbox%5D=automatic'')
      = [(''page'', ''3'')]"
    unfolding demo_url_3 str_int_values by (simp only: sum.inject simp_thms)
  from a b demo_url_1 demo_url_3 show ?thesis
    by (simp only: simp_thms) simp
qed


text \<open>
  Claim C5, as amended. The builder never fails, and the query of the built URL is, in this
  order: the marker; the page when above 1; then one parameter for each of brand, model,
  minimum year, maximum year, maximum mileage and maximum price that is present and truthy
  (a non-empty string, a non-zero integer); then the fuel token and the gearbox token, each
  only when the value is non-empty and has an entry in its map. A value without an entry
  is left out.
\<close>

theorem build_url_optional_parameters:
  "\<exists>u. build_url params page = Inr u \<and>
     url_pairs u =
       [(''search%5Badvanced_search_expanded%5D'', ''true'')]
       @ entry_if (page > 1) (''page'', str_int page)
       @ entry_if (truthy_str (marca params))
           (''search%5Bfilter_enum_make%5D'', quote_plus (the (marca params)))
       @ entry_if (truthy_str (modelo params))
           (''search%5Bfilter_enum_model%5D'', quote_plus (the (modelo params)))
       @ entry_if (truthy_int (ano_min params))
           (''search%5Bfilter_float_year%3Afrom%5D'', str_int (the (ano_min params)))
       @ entry_if (truthy_int (ano_max params))
           (''search%5Bfilter_float_year%3Ato%5D'', str_int (the (ano_max params)))
       @ entry_if (truthy_int (km_max params))
           (''search%5Bfilter_float_mileage%3Ato%5D'', str_int (the (km_max params)))
       @ entry_if (truthy_int (preco_max params))
           (''search%5Bfilter_float_price%3Ato%5D'', str_int (the (preco_max params)))
       @ entry_if (truthy_str (CarSearchParams.combustivel params)
                   \<and> dict_contains FUEL_TYPE_MAP (the (CarSearchParams.combustivel params)))
           (''search%5Bfilter_enum_fuel_type%5D'',
            quote_plus (the (map_of FUEL_TYPE_MAP (the (CarSearchParams.combustivel params)))))
       @ entry_if (truthy_str (caixa params)
                   \<and> dict_contains TRANSMISSION_MAP (the (caixa params)))
           (''search%5Bfilter_enum_gearbox%5D'',
            quote_plus (the (map_of TRANSMISSION_MAP (the (caixa params)))))"
  by (rule build_url_pairs)

theorem build_url_optional_parameters_witness:
  "build_url demo_params 3 = Inr
  ''https://www.otomoto.pl/osobowe?search%5Badvanced_search_expanded%5D=true&page=3&search%5Bfilter_enum_make%5D=bmw&search%5Bfilter_enum_model%5D=x5&search%5Bfilter_float_year%3Ato%5D=2020&search%5Bfilter_float_price%3Ato%5D=50000&search%5Bfilter_enum_gearbox%5D=automatic''
   \<and> url_pairs
  ''https://www.otomoto.pl/osobowe?search%5Badvanced_search_expanded%5D=true&page=3&search%5Bfilter_enum_make%5D=bmw&search%5Bfilter_enum_model%5D=x5&search%5Bfilter_float_year%3Ato%5D=2020&search%5Bfilter_float_price%3Ato%5D=50000&search%5Bfilter_enum_gearbox%5D=automatic''
     = [(''search%5Badvanced_search_expanded%5D'', ''true''), (''page'', ''3''),
        (''search%5Bfilter_enum_make%5D'', ''bmw''), (''search%5Bfilter_enum_model%5D'', ''x5''),
        (''search%5Bfilter_float_year%3Ato%5D'', ''2020''),
        (''search%5Bfilter_float_price%3Ato%5D'', ''50000''),
        (''search%5Bfilter_enum_gearbox%5D'', ''automatic'')]"
proof -
  from build_url_optional_parameters [of demo_params 3] obtain u where
    u: "build_url demo_params 3 = Inr u" and
    pairs: "url_pairs u =
       [(''search%5Badvanced_search_expanded%5D'', ''true'')]
       @ entry_if ((3::int) > 1) (''page'', str_int 3)
       @ entry_if (truthy_str (marca demo_params))
           (''search%5Bfilter_enum_make%5D'', quote_plus (the (marca demo_params)))
       @ entry_if (truthy_str (modelo demo_params))
           (''search%5Bfilter_enum_model%5D'', quote_plus (the (modelo demo_params)))
       @ entry_if (truthy_int (ano_min demo_params))
           (''search%5Bfilter_float_year%3Afrom%5D'', str_int (the (ano_min demo_params)))
       @ entry_if (truthy_int (ano_max demo_params))
           (''search%5Bfilter_float_year%3Ato%5D'', str_int (the (ano_max demo_params)))
       @ entry_if (truthy_int (km_max demo_params))
           (''search%5Bfilter_float_mileage%3Ato%5D'', str_int (the (km_max demo_params)))
       @ entry_if (truthy_int (preco_max demo_params))
           (''search%5Bfilter_float_price%3Ato%5D'', str_int (the (preco_max demo_params)))
       @ entry_if (truthy_str (CarSearchParams.combustivel demo_params)
                   \<and> dict_contains FUEL_TYPE_MAP (the (CarSearchParams.combustivel demo_params)))
           (''search%5Bfilter_enum_fuel_type%5D'',
            quote_plus (the (map_of FUEL_TYPE_MAP (the (CarSearchParams.combustivel demo_params)))))
       @ entry_if (truthy_str (caixa demo_params)
                   \<and> dict_contains TRANSMISSION_MAP (the (caixa demo_params)))
           (''search%5Bfilter_enum_gearbox%5D'',
            quote_plus (the (map_of TRANSMISSION_MAP (the (caixa demo_params)))))"
    by blast
  have "url_pairs u
     = [(''search%5Badvanced_search_expanded%5D'', ''true''), (''page'', ''3''),
        (''search%5Bfilter_enum_make%5D'', ''bmw''), (''search%5Bfilter_enum_model%5D'', ''x5''),
        (''search%5Bfilter_float_year%3Ato%5D'', ''2020''),
        (''search%5Bfilter_float_price%3Ato%5D'', ''50000''),
        (''search%5Bfilter_enum_gearbox%5D'', ''automatic'')]"
    unfolding pairs
    by (simp add: demo_params_def entry_if_def dict_contains_def FUEL_TYPE_MAP_def
      TRANSMISSION_MAP_def quote_plus_values str_int_values)
  with u show ?thesis
    unfolding demo_url_3 by (simp only: sum.inject simp_thms)
qed

lemma zero_km_query: "query_params zero_km_params 1 = Inr
   [(''search[advanced_search_expanded]'', QStr ''true'')]"
  unfolding query_params_normal
  by (simp add: zero_km_params_def entry_if_def)

text \<open>
  The claim C5 as stated fails: a maximum mileage of 0 is present on the parameters, and
  the built URL holds the marker alone.
\<close>

theorem present_zero_mileage_counterexample:
  "km_max zero_km_params = Some 0
   \<and> build_url zero_km_params 1 =
       Inr ''https://www.otomoto.pl/osobowe?search%5Badvanced_search_expanded%5D=true''
   \<and> url_pairs ''https://www.otomoto.pl/osobowe?search%5Badvanced_search_expanded%5D=true''
       = [(''search%5Badvanced_search_expanded%5D'', ''true'')]"
proof -
  have k: "km_max zero_km_params = Some 0"
    by (simp add: zero_km_params_def)
  have u: "build_url zero_km_params 1 =
       Inr ''https://www.otomoto.pl/osobowe?search%5Badvanced_search_expanded%5D=true''"
    unfolding build_url_def zero_km_query
    by (simp add: urlencode_def quote_plus_keys OTOMOTO_SEARCH_URL_def OTOMOTO_BASE_URL_def)
  have p: "url_pairs ''https://www.otomoto.pl/osobowe?search%5Badvanced_search_expanded%5D=true''
       = [(''search%5Badvanced_search_expanded%5D'', ''true'')]"
    by (simp add: url_pairs_def url_query_def split_pair_def)
  from k u p show ?thesis
    by (simp only: simp_thms)
qed

section \<open>Properties of the validator\<close>

lemma find_brand_None:
  "find_brand S m brands = None \<longleftrightarrow> (\<forall>item \<in> set brands. \<not> brand_matches S m item)"
  by (induction brands) auto

lemma find_brand_Some:
  "find_brand S m brands = Some item \<Longrightarrow>
     \<exists>pre post. brands = pre @ item # post \<and> (\<forall>e \<in> set pre. \<not> brand_matches S m e)
       \<and> brand_matches S m item"
proof (induction brands)
  case Nil
  then show ?case by simp
next
  case (Cons a brands)
  show ?case
  proof (cases "brand_matches S m a")
    case True
    with Cons.prems have "a = item"
      by simp
    then have "a # brands = [] @ item # brands \<and> (\<forall>e \<in> set []. \<not> brand_matches S m e)
        \<and> brand_matches S m item"
      using True by simp
    then show ?thesis
      by blast
  next
    case False
    with Cons.prems have "find_brand S m brands = Some item"
      by simp
    then obtain pre post where "brands = pre @ item # post"
      and "\<forall>e \<in> set pre. \<not> brand_matches S m e" and "brand_matches S m item"
      using Cons.IH by blast
    then have "a # brands = (a # pre) @ item # post
        \<and> (\<forall>e \<in> set (a # pre). \<not> brand_matches S m e) \<and> brand_matches S m item"
      using False by simp
    then show ?thesis
      by blast
  qed
qed

lemma validate_not_found:
  assumes "marca_input \<noteq> []"
    and "find_brand S (str_strip S (str_lower S marca_input)) brands = None"
  shows "validate_search_params S brands (Some marca_input) modelo_input =
     Inr \<lparr>valid = False, res_brand_value = None, res_model_value = None,
          errors = [brand_not_found_message marca_input],
          suggestions = [(''marcas'', take 5 (map fst brands))]\<rparr>"
  using assms by (simp add: validate_search_params_def)

lemma validate_found_no_value:
  assumes "marca_input \<noteq> []"
    and "find_brand S (str_strip S (str_lower S marca_input)) brands = Some (key, data)"
    and "brand_value data = None"
  shows "validate_search_params S brands (Some marca_input) modelo_input = Inl KeyError"
  using assms by (simp add: validate_search_params_def)

lemma validate_found:
  assumes "marca_input \<noteq> []"
    and "find_brand S (str_strip S (str_lower S marca_input)) brands = Some (key, data)"
    and "brand_value data = Some bv"
  shows "\<exists>r. validate_search_params S brands (Some marca_input) modelo_input = Inr r
     \<and> res_brand_value r = Some bv
     \<and> (\<not> truthy_str modelo_input \<longrightarrow> valid r \<and> errors r = [] \<and> suggestions r = [])"
  using assms by (simp add: validate_search_params_def Let_def split: option.split)

text \<open>
  Claim C8. Take a non-empty catalog and a given (non-empty) brand input, and let \<open>m\<close> be
  the input lower-cased and stripped. If no catalog entry matches, that is, for every entry
  the lower-cased key, the stored canonical value and the lower-cased display text (the
  empty string when there is none) all differ from \<open>m\<close>, then the validator returns a
  result that is not valid, whose only error message is the not-found message containing
  the input, and whose suggestions hold, under \<open>marcas\<close>, the first five catalog keys in
  catalog order: at most five, at least one. This holds whatever \<open>lower\<close> and \<open>strip\<close> do.
\<close>

theorem unknown_brand_suggestions:
  assumes "brands \<noteq> []" and "marca_input \<noteq> []"
    and "\<forall>item \<in> set brands.
          str_lower S (fst item) \<noteq> str_strip S (str_lower S marca_input)
          \<and> brand_value (snd item) \<noteq> Some (str_strip S (str_lower S marca_input))
          \<and> str_lower S (case brand_text (snd item) of None \<Rightarrow> [] | Some t \<Rightarrow> t)
              \<noteq> str_strip S (str_lower S marca_input)"
  shows "validate_search_params S brands (Some marca_input) modelo_input =
       Inr \<lparr>valid = False, res_brand_value = None, res_model_value = None,
            errors = [''Marca '' @ [CHR 0x27] @ marca_input @ [CHR 0x27] @ '' n''
                     @ [CHR 0xC3, CHR 0xA3] @ ''o encontrada.''],
            suggestions = [(''marcas'', take 5 (map fst brands))]\<rparr>
     \<and> length (take 5 (map fst brands)) \<le> 5
     \<and> take 5 (map fst brands) \<noteq> []"
proof -
  have "\<forall>item \<in> set brands. \<not> brand_matches S (str_strip S (str_lower S marca_input)) item"
    using assms(3) by (simp add: brand_matches_def)
  then have "find_brand S (str_strip S (str_lower S marca_input)) brands = None"
    by (simp add: find_brand_None)
  with assms(2) have "validate_search_params S brands (Some marca_input) modelo_input =
     Inr \<lparr>valid = False, res_brand_value = None, res_model_value = None,
          errors = [brand_not_found_message marca_input],
          suggestions = [(''marcas'', take 5 (map fst brands))]\<rparr>"
    by (rule validate_not_found)
  moreover have "take 5 (map fst brands) \<noteq> []"
    using assms(1) by simp
  ultimately show ?thesis
    by (simp add: brand_not_found_message_def)
qed

text \<open>
  Claim C6, as amended. For a given (non-empty) brand input, let \<open>m\<close> be the input
  lower-cased and stripped. If \<open>m\<close> equals the lower-cased key or the lower-cased display
  text of some catalog entry, the lookup finds a brand: the catalog splits around an
  entry which agrees with \<open>m\<close> in its lower-cased key, its stored canonical value or its
  lower-cased display text, while no entry before it agrees in any of the three. The
  result carries the canonical value of that first entry (and is valid when no model is
  asked for); if that entry stores no canonical value the lookup ends in \<open>KeyError\<close>.
  This holds whatever \<open>lower\<close> and \<open>strip\<close> do.
\<close>

theorem brand_lookup_first_match:
  assumes "marca_input \<noteq> []" and "item \<in> set brands"
    and "str_lower S (fst item) = str_strip S (str_lower S marca_input)
       \<or> str_lower S (case brand_text (snd item) of None \<Rightarrow> [] | Some t \<Rightarrow> t)
           = str_strip S (str_lower S marca_input)"
  shows "\<exists>pre key data post.
     brands = pre @ (key, data) # post
     \<and> (\<forall>e \<in> set pre.
           str_lower S (fst e) \<noteq> str_strip S (str_lower S marca_input)
           \<and> brand_value (snd e) \<noteq> Some (str_strip S (str_lower S marca_input))
           \<and> str_lower S (case brand_text (snd e) of None \<Rightarrow> [] | Some t \<Rightarrow> t)
               \<noteq> str_strip S (str_lower S marca_input))
     \<and> (str_lower S key = str_strip S (str_lower S marca_input)
         \<or> brand_value data = Some (str_strip S (str_lower S marca_input))
         \<or> str_lower S (case brand_text data of None \<Rightarrow> [] | Some t \<Rightarrow> t)
             = str_strip S (str_lower S marca_input))
     \<and> (case brand_value data of
          None \<Rightarrow>
            validate_search_params S brands (Some marca_input) modelo_input = Inl KeyError
        | Some bv \<Rightarrow>
            (\<exists>r. validate_search_params S brands (Some marca_input) modelo_input = Inr r
               \<and> res_brand_value r = Some bv
               \<and> (\<not> truthy_str modelo_input \<longrightarrow> valid r \<and> errors r = [] \<and> suggestions r = [])))"
proof -
  let ?m = "str_strip S (str_lower S marca_input)"
  have "brand_matches S ?m item"
    using assms(3) by (auto simp: brand_matches_def)
  with assms(2) have "find_brand S ?m brands \<noteq> None"
    by (auto simp: find_brand_None)
  then obtain key data where found: "find_brand S ?m brands = Some (key, data)"
    by auto
  from find_brand_Some [OF found] obtain pre post where
    split: "brands = pre @ (key, data) # post"
    and before: "\<forall>e \<in> set pre. \<not> brand_matches S ?m e"
    and here: "brand_matches S ?m (key, data)"
    by blast
  have before': "\<forall>e \<in> set pre.
           str_lower S (fst e) \<noteq> ?m \<and> brand_value (snd e) \<noteq> Some ?m
           \<and> str_lower S (case brand_text (snd e) of None \<Rightarrow> [] | Some t \<Rightarrow> t) \<noteq> ?m"
    using before by (simp add: brand_matches_def)
  have here': "str_lower S key = ?m \<or> brand_value data = Some ?m
         \<or> str_lower S (case brand_text data of None \<Rightarrow> [] | Some t \<Rightarrow> t) = ?m"
    using here by (simp add: brand_matches_def)
  have "case brand_value data of
          None \<Rightarrow>
            validate_search_params S brands (Some marca_input) modelo_input = Inl KeyError
        | Some bv \<Rightarrow>
            (\<exists>r. validate_search_params S brands (Some marca_input) modelo_input = Inr r
               \<and> res_brand_value r = Some bv
               \<and> (\<not> truthy_str modelo_input \<longrightarrow> valid r \<and> errors r = [] \<and> suggestions r = []))"
  proof (cases "brand_value data")
    case None
    with assms(1) found show ?thesis
      by (simp add: validate_found_no_value)
  next
    case (Some bv)
    with validate_found [OF assms(1) found Some, of modelo_input] show ?thesis
      by simp
  qed
  with split before' here' show ?thesis
    by blast
qed

lemma lower_examples:
  "ascii_strip (ascii_lower ''CUPRA'') = ''cupra''"
  "ascii_strip (ascii_lower '' Lada '') = ''lada''"
  "ascii_strip (ascii_lower ''Mercedes-Benz'') = ''mercedes-benz''"
  "ascii_lower ''cupra'' = ''cupra''" "ascii_lower ''seat'' = ''seat''"
  "ascii_lower ''mb'' = ''mb''"
  "ascii_lower ''Cupra'' = ''cupra''" "ascii_lower ''Mercedes'' = ''mercedes''"
  "ascii_lower ''audi'' = ''audi''" "ascii_lower ''bmw'' = ''bmw''"
  "ascii_lower ''fiat'' = ''fiat''" "ascii_lower ''ford'' = ''ford''"
  "ascii_lower ''kia'' = ''kia''" "ascii_lower ''opel'' = ''opel''"
  by (simp_all add: ascii_strip_def ascii_lower_def lower_char_def is_space_def)

lemma ascii_strings_fields:
  "str_lower ascii_strings = ascii_lower" "str_strip ascii_strings = ascii_strip"
  "str_upper ascii_strings = ascii_upper" "str_len ascii_strings = length"
  "str_from ascii_strings = drop"
  by (simp_all add: ascii_strings_def)

theorem unknown_brand_suggestions_witness:
  "six_catalog \<noteq> [] \<and> '' Lada '' \<noteq> []
   \<and> str_strip ascii_strings (str_lower ascii_strings '' Lada '') = ''lada''
   \<and> filter (\<lambda>item. str_lower ascii_strings (fst item) = ''lada''
                \<or> brand_value (snd item) = Some ''lada''
                \<or> str_lower ascii_strings
                     (case brand_text (snd item) of None \<Rightarrow> [] | Some t \<Rightarrow> t) = ''lada'')
        six_catalog = []
   \<and> validate_search_params ascii_strings six_catalog (Some '' Lada '') (Some ''niva'') =
       Inr \<lparr>valid = False, res_brand_value = None, res_model_value = None,
            errors = [''Marca '' @ [CHR 0x27] @ '' Lada '' @ [CHR 0x27] @ '' n''
                     @ [CHR 0xC3, CHR 0xA3] @ ''o encontrada.''],
            suggestions = [(''marcas'', [''audi'', ''bmw'', ''fiat'', ''ford'', ''kia''])]\<rparr>"
proof -
  have a: "six_catalog \<noteq> []"
    by (simp add: six_catalog_def)
  have b: "'' Lada '' \<noteq> []"
    by simp
  have m: "str_strip ascii_strings (str_lower ascii_strings '' Lada '') = ''lada''"
    by (simp add: ascii_strings_fields lower_examples)
  have c: "\<forall>item \<in> set six_catalog.
          str_lower ascii_strings (fst item)
            \<noteq> str_strip ascii_strings (str_lower ascii_strings '' Lada '')
          \<and> brand_value (snd item)
            \<noteq> Some (str_strip ascii_strings (str_lower ascii_strings '' Lada ''))
          \<and> str_lower ascii_strings (case brand_text (snd item) of None \<Rightarrow> [] | Some t \<Rightarrow> t)
              \<noteq> str_strip ascii_strings (str_lower ascii_strings '' Lada '')"
    unfolding m by (simp add: six_catalog_def ascii_strings_fields lower_examples)
  have f: "filter (\<lambda>item. str_lower ascii_strings (fst item) = ''lada''
                \<or> brand_value (snd item) = Some ''lada''
                \<or> str_lower ascii_strings
                     (case brand_text (snd item) of None \<Rightarrow> [] | Some t \<Rightarrow> t) = ''lada'')
        six_catalog = []"
    by (simp add: six_catalog_def ascii_strings_fields lower_examples)
  have d: "take 5 (map fst six_catalog) = [''audi'', ''bmw'', ''fiat'', ''ford'', ''kia'']"
    by (simp add: six_catalog_def)
  from unknown_brand_suggestions [OF a b c, of "Some ''niva''"] a b m f show ?thesis
    unfolding d by (simp only: simp_thms)
qed

lemma cupra_found:
  "find_brand ascii_strings ''cupra'' cupra_catalog = Some (''seat'',
     \<lparr>brand_value = Some ''seat'', brand_text = Some ''Cupra'', models = Some []\<rparr>)"
  by (simp add: cupra_catalog_def brand_matches_def ascii_strings_fields lower_examples)

lemma cupra_validated:
  "validate_search_params ascii_strings cupra_catalog (Some ''CUPRA'') None =
       Inr \<lparr>valid = True, res_brand_value = Some ''seat'', res_model_value = None,
            errors = [], suggestions = []\<rparr>"
  by (simp add: validate_search_params_def ascii_strings_fields lower_examples cupra_found)

theorem brand_lookup_first_match_witness:
  "''CUPRA'' \<noteq> []
   \<and> (''cupra'', \<lparr>brand_value = Some ''cupra'', brand_text = Some ''Cupra'',
         models = Some [\<lparr>model_value = ''formentor'', model_text = ''Formentor''\<rparr>]\<rparr>)
       \<in> set cupra_catalog
   \<and> str_lower ascii_strings ''cupra''
       = str_strip ascii_strings (str_lower ascii_strings ''CUPRA'')
   \<and> validate_search_params ascii_strings cupra_catalog (Some ''CUPRA'') None =
       Inr \<lparr>valid = True, res_brand_value = Some ''seat'', res_model_value = None,
            errors = [], suggestions = []\<rparr>"
proof -
  let ?item = "(''cupra'', \<lparr>brand_value = Some ''cupra'', brand_text = Some ''Cupra'',
         models = Some [\<lparr>model_value = ''formentor'', model_text = ''Formentor''\<rparr>]\<rparr>)"
  have a: "''CUPRA'' \<noteq> []"
    by simp
  have b: "?item \<in> set cupra_catalog"
    by (simp add: cupra_catalog_def)
  have c: "str_lower ascii_strings ''cupra''
       = str_strip ascii_strings (str_lower ascii_strings ''CUPRA'')"
    by (simp add: ascii_strings_fields lower_examples)
  then have c': "str_lower ascii_strings (fst ?item)
         = str_strip ascii_strings (str_lower ascii_strings ''CUPRA'')
       \<or> str_lower ascii_strings (case brand_text (snd ?item) of None \<Rightarrow> [] | Some t \<Rightarrow> t)
           = str_strip ascii_strings (str_lower ascii_strings ''CUPRA'')"
    by simp
  from brand_lookup_first_match [OF a b c', of None] a b c cupra_validated show ?thesis
    by (simp only: simp_thms)
qed

text \<open>
  The claim C6 as stated fails: \<open>CUPRA\<close> differs only in case from the key \<open>cupra\<close> of the
  third entry, and is normalised to \<open>seat\<close>, the value of the second entry, whose display
  text it also equals up to case; the first entry agrees with it in nothing.
\<close>

theorem brand_lookup_counterexample:
  "ascii_lower ''CUPRA'' = ascii_lower ''cupra''
   \<and> map_of cupra_catalog ''cupra''
       = Some \<lparr>brand_value = Some ''cupra'', brand_text = Some ''Cupra'',
           models = Some [\<lparr>model_value = ''formentor'', model_text = ''Formentor''\<rparr>]\<rparr>
   \<and> validate_search_params ascii_strings cupra_catalog (Some ''CUPRA'') None =
       Inr \<lparr>valid = True, res_brand_value = Some ''seat'', res_model_value = None,
            errors = [], suggestions = []\<rparr>"
proof -
  have "ascii_lower ''CUPRA'' = ascii_lower ''cupra''"
    by (simp add: ascii_lower_def lower_char_def)
  moreover have "map_of cupra_catalog ''cupra''
       = Some \<lparr>brand_value = Some ''cupra'', brand_text = Some ''Cupra'',
           models = Some [\<lparr>model_value = ''formentor'', model_text = ''Formentor''\<rparr>]\<rparr>"
    by (simp add: cupra_catalog_def)
  ultimately show ?thesis
    using cupra_validated by (simp only: simp_thms)
qed

text \<open>
  The comparison with the canonical value takes the stored value as it is: a catalog whose
  \<open>brand_value\<close> holds capitals is not matched through it, even by the same spelling.
\<close>

lemma stored_value_compared_as_is:
  "validate_search_params ascii_strings cupra_catalog (Some ''Mercedes-Benz'') None =
     Inr \<lparr>valid = False, res_brand_value = None, res_model_value = None,
          errors = [brand_not_found_message ''Mercedes-Benz''],
          suggestions = [(''marcas'', [''mb'', ''seat'', ''cupra''])]\<rparr>"
proof -
  have "find_brand ascii_strings ''mercedes-benz'' cupra_catalog = None"
    by (simp add: cupra_catalog_def brand_matches_def ascii_strings_fields lower_examples)
  then show ?thesis
    by (simp add: validate_not_found ascii_strings_fields lower_examples cupra_catalog_def)
qed

section \<open>Properties of the extractors\<close>







lemma demo_numbers:
  "digits_value 0 ''99000'' = Some 99000" "digits_value 0 ''2015'' = Some 2015"
  by (simp_all add: digit_value_def)










end
